theory Spec2Isabelle
  imports Main "HOL-Library.Sublist" "HOL-Library.Log_Nat"
begin


section \<open>Python strings\<close>

text \<open>
  A Python \<open>str\<close> is modelled as a \<open>string\<close> whose characters are the code points
  below 256. The functions of this section are the \<open>str\<close> methods and built-ins the
  program calls.
\<close>

definition startswith :: "string \<Rightarrow> string \<Rightarrow> bool" where
  "startswith s p = prefix p s"

definition endswith :: "string \<Rightarrow> string \<Rightarrow> bool" where
  "endswith s x = suffix x s"

text \<open>\<open>str.isspace\<close> on one character: the code points 9 to 13, 28 to 32, 133 and 160.\<close>

definition isspace :: "char \<Rightarrow> bool" where
  "isspace c = (let n = (of_char c :: nat) in (9 \<le> n \<and> n \<le> 13) \<or> (28 \<le> n \<and> n \<le> 32) \<or> n = 133 \<or> n = 160)"

definition strip :: "string \<Rightarrow> string" where
  "strip s = rev (dropWhile isspace (rev (dropWhile isspace s)))"

text \<open>\<open>s.replace(old, new)\<close> for a one-character \<open>old\<close>.\<close>

definition replace :: "string \<Rightarrow> char \<Rightarrow> string \<Rightarrow> string" where
  "replace s old new = concat (map (\<lambda>c. if c = old then new else [c]) s)"

text \<open>\<open>sep.join(parts)\<close> and \<open>s.split(sep)\<close> for a one-character separator.\<close>

fun join :: "string \<Rightarrow> string list \<Rightarrow> string" where
  "join sep [] = []"
| "join sep [x] = x"
| "join sep (x # y # ys) = x @ sep @ join sep (y # ys)"

fun split :: "string \<Rightarrow> char \<Rightarrow> string list" where
  "split [] sep = [[]]"
| "split (c # cs) sep =
     (if c = sep then [] # split cs sep
      else (case split cs sep of p # ps \<Rightarrow> (c # p) # ps | [] \<Rightarrow> [[c]]))"

text \<open>
  Decimal digits: \<open>str(n)\<close> and the \<open>%d\<close>, \<open>%02d\<close> and \<open>{:,}\<close> formats of an integer.
  \<open>decimal\<close> is the digit string of a non-negative integer.
\<close>

definition digit_char :: "int \<Rightarrow> char" where
  "digit_char d = ''0123456789'' ! nat (d mod 10)"

function decimal :: "int \<Rightarrow> string" where
  "decimal n = (if n < 10 then [digit_char n] else decimal (n div 10) @ [digit_char (n mod 10)])"
  by pat_completeness auto
termination
  by (relation "measure nat") auto

declare decimal.simps [simp del]

definition str_of_int :: "int \<Rightarrow> string" where
  "str_of_int i = (if i < 0 then CHR ''-'' # decimal (- i) else decimal i)"

definition two_digits :: "int \<Rightarrow> string" where
  "two_digits n = (if n < 10 then CHR ''0'' # decimal n else decimal n)"

definition three_digits :: "int \<Rightarrow> string" where
  "three_digits n = [digit_char (n div 100), digit_char (n div 10), digit_char n]"

function group_thousands :: "int \<Rightarrow> string" where
  "group_thousands n =
     (if n < 1000 then decimal n
      else group_thousands (n div 1000) @ '','' @ three_digits (n mod 1000))"
  by pat_completeness auto
termination
  by (relation "measure nat") auto

declare group_thousands.simps [simp del]

definition format_thousands :: "int \<Rightarrow> string" where
  "format_thousands i =
     (if i < 0 then CHR ''-'' # group_thousands (- i) else group_thousands i)"

text \<open>
  \<open>int(s)\<close> for a string: optional whitespace (for \<open>int\<close> the code points 9 to 13, 32,
  133 and 160) around an optional sign and decimal digits, where single underscores may
  separate digits; at most 4300 digits (the interpreter's default limit). \<open>None\<close> is
  \<open>ValueError\<close>.
\<close>

definition int_space :: "char \<Rightarrow> bool" where
  "int_space c = (let n = (of_char c :: nat) in (9 \<le> n \<and> n \<le> 13) \<or> n = 32 \<or> n = 133 \<or> n = 160)"

definition isdigit :: "char \<Rightarrow> bool" where
  "isdigit c = (let n = (of_char c :: nat) in 48 \<le> n \<and> n \<le> 57)"

fun digits_ok :: "string \<Rightarrow> bool" where
  "digits_ok [] = False"
| "digits_ok [c] = isdigit c"
| "digits_ok (c # d # r) =
     (isdigit c \<and> (if d = CHR ''_'' then digits_ok r else digits_ok (d # r)))"

definition digits_value :: "string \<Rightarrow> int" where
  "digits_value ds = foldl (\<lambda>a c. 10 * a + (of_char c - 48)) 0 ds"

definition int_max_str_digits :: nat where
  "int_max_str_digits = 4300"

definition py_int :: "string \<Rightarrow> int option" where
  "py_int s =
     (let t = rev (dropWhile int_space (rev (dropWhile int_space s)));
          neg = (t \<noteq> [] \<and> hd t = CHR ''-'');
          body = (if t \<noteq> [] \<and> (hd t = CHR ''-'' \<or> hd t = CHR ''+'') then tl t else t);
          ds = filter isdigit body
      in if digits_ok body \<and> length ds \<le> int_max_str_digits
         then Some (if neg then - digits_value ds else digits_value ds)
         else None)"

section \<open>URL validation\<close>

text \<open>
  \<open>QUrl\<close> is Qt's URL class. Of a parsed URL the validator reads \<open>isValid()\<close> and
  \<open>host()\<close> only, so a parsed URL is the record of these two, and Qt's parser is a
  parameter of the validator.
\<close>

record qurl =
  isValid :: bool
  host :: string

definition youtube_domains :: "string list" where
  "youtube_domains =
     [''youtube.com'', ''www.youtube.com'', ''m.youtube.com'', ''youtu.be'', ''www.youtu.be'']"

text \<open>\<open>_is_valid_youtube_url\<close> (lines 436 to 446).\<close>

definition is_valid_youtube_url :: "(string \<Rightarrow> qurl) \<Rightarrow> string \<Rightarrow> bool" where
  "is_valid_youtube_url parse url =
     (let q = parse url in
      if \<not> isValid q then False
      else host q \<in> set youtube_domains \<or>
           list_ex (\<lambda>domain. endswith (host q) (''.'' @ domain))
             (filter (\<lambda>domain. \<not> startswith domain ''www'') youtube_domains))"

text \<open>
  The validation rule in the specification's words: the host equals one of the five
  allowed hosts, or ends with a dot followed by one of them.
\<close>

definition spec_allowed_host :: "string \<Rightarrow> bool" where
  "spec_allowed_host h =
     list_ex (\<lambda>d. h = d \<or> suffix (''.'' @ d) h) youtube_domains"

section \<open>Python floats\<close>

text \<open>
  A finite \<open>float\<close> is the rational it denotes; \<open>double_of_rat\<close> rounds a rational to
  the nearest binary64 number, ties to even, with gradual underflow. \<open>None\<close> is a result
  beyond the largest finite float.
\<close>

definition round_half_even :: "rat \<Rightarrow> int" where
  "round_half_even x =
     (let f = \<lfloor>x\<rfloor>; r = x - of_int f
      in if r < 1 / 2 then f else if 1 / 2 < r then f + 1 else if even f then f else f + 1)"

text \<open>For \<open>0 < x\<close>, \<open>binade x\<close> is the \<open>e\<close> with \<open>2 powi e \<le> x < 2 powi (e + 1)\<close>.\<close>

definition binade :: "rat \<Rightarrow> int" where
  "binade x =
     (let (p, q) = quotient_of x; e = bitlen p - bitlen q
      in if 2 powi e \<le> x then e else e - 1)"

definition double_of_rat :: "rat \<Rightarrow> rat option" where
  "double_of_rat x =
     (if x = 0 then Some 0
      else
        let a = \<bar>x\<bar>;
            u = 2 powi (max (binade a) (- 1022) - 52);
            r = of_int (round_half_even (a / u)) * u
        in if 2 powi 1024 \<le> r then None else Some (if x < 0 then - r else r))"

section \<open>Exceptions\<close>

text \<open>
  The exceptions the program meets, each with its message. The handlers of the program
  tell apart yt-dlp's \<open>DownloadError\<close>, \<open>OSError\<close> (with its subclasses), any other
  subclass of \<open>Exception\<close>, and an exception that is not an \<open>Exception\<close> (such as
  \<open>KeyboardInterrupt\<close>), which no handler of the program catches.
\<close>

datatype exn =
    DownloadError string
  | OSError string
  | OverflowError string
  | ZeroDivisionError string
  | ValueError string
  | OtherException string
  | BaseException string

fun str_of_exn :: "exn \<Rightarrow> string" where
  "str_of_exn (DownloadError m) = m"
| "str_of_exn (OSError m) = m"
| "str_of_exn (OverflowError m) = m"
| "str_of_exn (ZeroDivisionError m) = m"
| "str_of_exn (ValueError m) = m"
| "str_of_exn (OtherException m) = m"
| "str_of_exn (BaseException m) = m"

fun is_Exception :: "exn \<Rightarrow> bool" where
  "is_Exception (BaseException m) = False"
| "is_Exception e = True"

section \<open>Float arithmetic of the progress computation\<close>

datatype pyfloat = Finite rat | Inf

text \<open>\<open>a / b\<close> on two \<open>int\<close>s: the quotient, correctly rounded.\<close>

definition int_truediv :: "int \<Rightarrow> int \<Rightarrow> exn + pyfloat" where
  "int_truediv a b =
     (if b = 0 then Inl (ZeroDivisionError ''division by zero'')
      else (case double_of_rat (of_int a / of_int b) of
              None \<Rightarrow> Inl (OverflowError ''integer division result too large for a float'')
            | Some q \<Rightarrow> Inr (Finite q)))"

text \<open>\<open>x * n\<close> for a float and an \<open>int\<close> that a float holds exactly.\<close>

definition float_mul_int :: "pyfloat \<Rightarrow> int \<Rightarrow> pyfloat" where
  "float_mul_int x n =
     (case x of
        Inf \<Rightarrow> Inf
      | Finite q \<Rightarrow> (case double_of_rat (q * of_int n) of None \<Rightarrow> Inf | Some p \<Rightarrow> Finite p))"

text \<open>\<open>int(x)\<close> for a float: truncation toward zero.\<close>

definition int_of_float :: "pyfloat \<Rightarrow> exn + int" where
  "int_of_float x =
     (case x of
        Inf \<Rightarrow> Inl (OverflowError ''cannot convert float infinity to integer'')
      | Finite q \<Rightarrow> Inr (if 0 \<le> q then \<lfloor>q\<rfloor> else \<lceil>q\<rceil>))"

text \<open>\<open>int((downloaded / total_size) * 100)\<close>, the percentage of lines 44 and 45.\<close>

definition percent_of :: "int \<Rightarrow> int \<Rightarrow> exn + int" where
  "percent_of downloaded total_size =
     (case int_truediv downloaded total_size of
        Inl e \<Rightarrow> Inl e
      | Inr q \<Rightarrow> int_of_float (float_mul_int q 100))"

text \<open>
  The percentage in the specification's words: the floor of
  \<open>100 * downloaded / total_size\<close>, clamped to the range from 0 to 100.
\<close>

definition spec_progress_percent :: "int \<Rightarrow> int \<Rightarrow> int" where
  "spec_progress_percent downloaded total_size =
     max 0 (min 100 ((100 * downloaded) div total_size))"

section \<open>Data of the worker\<close>

text \<open>
  The info dictionary of yt-dlp, at the keys the program reads. A key is absent
  (\<open>None\<close>) or holds a value of the type the program uses it at; \<open>other_keys\<close> are
  the further keys of the dictionary (such as \<open>formats\<close>).
\<close>

record video_info =
  title :: "string option"
  uploader :: "string option"
  duration :: "int option"
  view_count :: "int option"
  thumbnail :: "string option"
  webpage_url :: "string option"
  other_keys :: "string list"

text \<open>The truth value of the dictionary: it has a key.\<close>

definition dict_nonempty :: "video_info \<Rightarrow> bool" where
  "dict_nonempty i =
     (title i \<noteq> None \<or> uploader i \<noteq> None \<or> duration i \<noteq> None \<or> view_count i \<noteq> None \<or>
      thumbnail i \<noteq> None \<or> webpage_url i \<noteq> None \<or> other_keys i \<noteq> [])"

text \<open>
  A pixmap is the null pixmap or the image decoded from downloaded data, scaled into a
  box of the given width and height.
\<close>

datatype pixmap = Null_pixmap | Scaled_image string nat nat

text \<open>The signals of \<open>YtdlpWorker\<close> (lines 26 to 34).\<close>

datatype signal =
    Log_message string string
  | Progress_update int
  | Download_complete
  | Download_error string
  | Info_fetched video_info
  | Info_error string
  | Thumbnail_loaded pixmap
  | Thumbnail_error
  | Operation_finished

text \<open>
  The dictionary yt-dlp passes to a progress hook, with the keys the hook reads. \<open>None\<close>
  is an absent key (for the two totals also the value \<open>None\<close>, which \<open>or\<close> and \<open>if\<close>
  treat alike). The byte counts are Python ints.
\<close>

record progress =
  status :: string
  downloaded_bytes :: "int option"
  total_bytes :: "int option"
  total_bytes_estimate :: "int option"

datatype postprocessor =
    FFmpegExtractAudio string string
  | FFmpegMetadata
  | EmbedThumbnail

text \<open>
  The options of a download. \<open>postprocessors = None\<close> is the key left out; the
  \<open>progress_hooks\<close> entry is always the one hook \<open>progress_hook\<close> below.
\<close>

record ydl_opts =
  format :: string
  outtmpl :: string
  noplaylist :: bool
  merge_output_format :: "string option"
  nocheckcertificate :: bool
  postprocessors :: "postprocessor list option"

section \<open>Collaborators\<close>

text \<open>
  What the program calls and does not define, as parameters of the model:
  Qt's URL parser; \<open>Path.is_dir\<close>, which answers or raises; \<open>Path.mkdir(parents=True,
  exist_ok=True)\<close>, which returns (\<open>None\<close>) or raises; \<open>os.path.join\<close>; \<open>str.upper\<close>;
  PyQt's conversion of the argument of a signal declared with \<open>int\<close> to the C \<open>int\<close>
  the slots receive, which can raise; \<open>YoutubeDL.extract_info\<close> under the options of
  \<open>fetch_video_info\<close>; \<open>YoutubeDL.download\<close>, which gives the dictionaries it would
  pass to the progress hook, in order, and the exception it ends with, if any;
  \<open>urlopen(url).read()\<close>; and whether \<open>QImage.fromData\<close> decodes the data to an image
  that is not null.
\<close>

record env =
  QUrl :: "string \<Rightarrow> qurl"
  is_dir :: "string \<Rightarrow> exn + bool"
  mkdir :: "string \<Rightarrow> exn option"
  os_path_join :: "string \<Rightarrow> string \<Rightarrow> string"
  str_upper :: "string \<Rightarrow> string"
  c_int :: "int \<Rightarrow> exn + int"
  extract_info :: "string \<Rightarrow> exn + video_info"
  ydl_download :: "ydl_opts \<Rightarrow> string \<Rightarrow> progress list \<times> exn option"
  urlopen_read :: "string \<Rightarrow> exn + string"
  QImage_fromData :: "string \<Rightarrow> bool"

section \<open>The worker\<close>

text \<open>
  \<open>_progress_hook\<close> (lines 40 to 50): the signals it emits, or the exception that
  leaves it.
\<close>

definition progress_hook :: "env \<Rightarrow> progress \<Rightarrow> exn + signal list" where
  "progress_hook env d =
     (if status d = ''downloading'' then
        (let total = (case total_bytes d of
                        Some t \<Rightarrow> if t \<noteq> 0 then Some t else total_bytes_estimate d
                      | None \<Rightarrow> total_bytes_estimate d)
         in case total of
              None \<Rightarrow> Inr []
            | Some t \<Rightarrow>
                if t = 0 then Inr []
                else (case percent_of (case downloaded_bytes d of Some n \<Rightarrow> n | None \<Rightarrow> 0) t of
                        Inl e \<Rightarrow> Inl e
                      | Inr percent \<Rightarrow>
                          (case c_int env percent of
                             Inl e \<Rightarrow> Inl e
                           | Inr received \<Rightarrow> Inr [Progress_update received])))
      else if status d = ''finished'' then
        (case c_int env 100 of
           Inl e \<Rightarrow> Inl e
         | Inr received \<Rightarrow>
             Inr [Progress_update received,
                  Log_message ''Download finished. Processing file(s)...'' ''info''])
      else if status d = ''error'' then
        Inr [Download_error
               ''yt-dlp encountered an error during download or post-processing.'']
      else Inr [])"

text \<open>
  The total the specification calls known: the exact one when it is present and not
  zero, or else the estimate when that is present and not zero.
\<close>

definition known_total :: "progress \<Rightarrow> int option" where
  "known_total d =
     (if total_bytes d \<noteq> None \<and> total_bytes d \<noteq> Some 0 then total_bytes d
      else if total_bytes_estimate d \<noteq> None \<and> total_bytes_estimate d \<noteq> Some 0
      then total_bytes_estimate d
      else None)"

text \<open>
  The hook calls of one download, in order: an exception that leaves the hook leaves the
  library call too, so the later calls are not made.
\<close>

fun run_hooks :: "env \<Rightarrow> progress list \<Rightarrow> signal list \<times> exn option" where
  "run_hooks env [] = ([], None)"
| "run_hooks env (d # ds) =
     (case progress_hook env d of
        Inl e \<Rightarrow> ([], Some e)
      | Inr sigs \<Rightarrow> (case run_hooks env ds of (rest, r) \<Rightarrow> (sigs @ rest, r)))"

text \<open>
  \<open>fetch_video_info\<close> (lines 52 to 74): the signals emitted and the exception that
  leaves the method.
\<close>

definition fetch_video_info :: "env \<Rightarrow> string \<Rightarrow> signal list \<times> exn option" where
  "fetch_video_info env url =
     (case extract_info env url of
        Inr info \<Rightarrow> ([Info_fetched info, Operation_finished], None)
      | Inl e \<Rightarrow>
          (case e of
             DownloadError m \<Rightarrow>
               ([Info_error (''Could not fetch info: '' @ m @ [CHR 0x0A] @
                             ''Check URL or network connection.''),
                 Operation_finished], None)
           | BaseException m \<Rightarrow> ([Operation_finished], Some e)
           | _ \<Rightarrow>
               ([Info_error (''An unexpected error occurred during info fetch: '' @ str_of_exn e),
                 Operation_finished], None)))"

text \<open>The format selector (lines 79 to 94), with the signals emitted on the way.\<close>

definition select_format :: "string \<Rightarrow> string \<Rightarrow> string \<times> signal list" where
  "select_format file_format quality =
     (if file_format = ''mp3'' then (''bestaudio/best'', [])
      else if quality = ''Best'' then (''bestvideo*+bestaudio/best'', [])
      else
        (let height = replace quality CHR ''p'' [] in
         case py_int height of
           Some height_int \<Rightarrow>
             (''bestvideo[height<='' @ str_of_int height_int @ '']+bestaudio/best'', [])
         | None \<Rightarrow>
             (''bestvideo*+bestaudio/best'',
              [Log_message (''Invalid quality selected: '' @ quality @
                            ''. Falling back to '' @ [CHR 0x27] @ ''Best'' @ [CHR 0x27] @ ''.'')
                 ''warning''])))"

text \<open>The postprocessors (lines 109 to 118), with the signals emitted on the way.\<close>

definition build_postprocessors ::
  "string \<Rightarrow> bool \<Rightarrow> video_info option \<Rightarrow> postprocessor list \<times> signal list" where
  "build_postprocessors file_format embed_metadata info =
     (let audio = (if file_format = ''mp3'' then [FFmpegExtractAudio ''mp3'' ''192''] else [])
      in if embed_metadata then
           (if (case info of
                  None \<Rightarrow> False
                | Some i \<Rightarrow> dict_nonempty i \<and>
                    (case thumbnail i of None \<Rightarrow> False | Some u \<Rightarrow> u \<noteq> []))
            then (audio @ [FFmpegMetadata, EmbedThumbnail],
                  [Log_message ''Attempting to embed thumbnail...'' ''info''])
            else (audio @ [FFmpegMetadata],
                  [Log_message
                     ''Warning: Cannot embed thumbnail as no video info or thumbnail URL was available.''
                     ''warning'']))
         else (audio, []))"

text \<open>
  The options handed to \<open>YoutubeDL\<close> (lines 79 to 120), with the signals emitted while
  they are built.
\<close>

definition download_opts ::
  "env \<Rightarrow> string \<Rightarrow> string \<Rightarrow> string \<Rightarrow> bool \<Rightarrow> bool \<Rightarrow> string \<Rightarrow> bool \<Rightarrow> video_info option
     \<Rightarrow> ydl_opts \<times> signal list" where
  "download_opts env output_path file_format quality is_playlist use_custom_filename
       filename_template embed_metadata info =
     (case select_format file_format quality of
        (format_selector, sigs1) \<Rightarrow>
          (case build_postprocessors file_format embed_metadata info of
             (pps, sigs2) \<Rightarrow>
               (\<lparr>format = format_selector,
                 outtmpl = os_path_join env output_path
                   (if use_custom_filename \<and> strip filename_template \<noteq> []
                    then filename_template else ''%(title)s.%(ext)s''),
                 noplaylist = (\<not> is_playlist),
                 merge_output_format = (if file_format \<noteq> ''mp3'' then Some file_format else None),
                 nocheckcertificate = True,
                 postprocessors = (if pps \<noteq> [] then Some pps else None)\<rparr>,
                sigs1 @ sigs2)))"

text \<open>
  \<open>download_video\<close> (lines 76 to 132): the signals emitted, in order, and the exception
  that leaves the method.
\<close>

definition download_video ::
  "env \<Rightarrow> string \<Rightarrow> string \<Rightarrow> string \<Rightarrow> string \<Rightarrow> bool \<Rightarrow> bool \<Rightarrow> string \<Rightarrow> bool \<Rightarrow> video_info option
     \<Rightarrow> signal list \<times> exn option" where
  "download_video env url output_path file_format quality is_playlist use_custom_filename
       filename_template embed_metadata info =
     (case download_opts env output_path file_format quality is_playlist use_custom_filename
             filename_template embed_metadata info of
        (opts, sigs0) \<Rightarrow>
          (case ydl_download env opts url of
             (hook_calls, result) \<Rightarrow>
               (case run_hooks env hook_calls of
                  (hook_sigs, hook_exn) \<Rightarrow>
                    (let started = sigs0 @
                           [Log_message (''Starting download of '' @ str_upper env file_format @ ''...'')
                              ''info'']
                           @ hook_sigs;
                         raised = (case hook_exn of Some e \<Rightarrow> Some e | None \<Rightarrow> result)
                     in case raised of
                          None \<Rightarrow> (started @ [Download_complete, Operation_finished], None)
                        | Some e \<Rightarrow>
                            (case e of
                               DownloadError m \<Rightarrow>
                                 (started @
                                  [Download_error (''Download error: '' @ m @ [CHR 0x0A] @
                                     ''Possible issues: Invalid URL, geo-restriction, or missing FFmpeg/dependencies.''),
                                   Operation_finished], None)
                             | BaseException m \<Rightarrow> (started @ [Operation_finished], Some e)
                             | _ \<Rightarrow>
                                 (started @
                                  [Download_error (''An unexpected error occurred: '' @ str_of_exn e),
                                   Operation_finished], None))))))"

text \<open>\<open>download_thumbnail\<close> (lines 134 to 152).\<close>

definition download_thumbnail :: "env \<Rightarrow> string \<Rightarrow> signal list \<times> exn option" where
  "download_thumbnail env url =
     (let failed = (\<lambda>e. ([Log_message (''Failed to load thumbnail: '' @ str_of_exn e) ''error'',
                          Thumbnail_error], None))
      in case urlopen_read env url of
           Inl e \<Rightarrow> (if is_Exception e then failed e else ([], Some e))
         | Inr raw_data \<Rightarrow>
             if \<not> QImage_fromData env raw_data
             then failed (ValueError ''Failed to load image data.'')
             else ([Thumbnail_loaded (Scaled_image raw_data 160 90),
                    Log_message ''Thumbnail loaded.'' ''info''], None))"

text \<open>Whether the options name a postprocessor.\<close>

definition has_postprocessor :: "postprocessor \<Rightarrow> ydl_opts \<Rightarrow> bool" where
  "has_postprocessor pp opts =
     (case postprocessors opts of Some pps \<Rightarrow> pp \<in> set pps | None \<Rightarrow> False)"

section \<open>The main window\<close>

text \<open>
  What the window does to its collaborators, in order: message boxes shown
  (\<open>QMessageBox.critical\<close> with title and text), directories asked for
  (\<open>mkdir\<close> with its path and the flags \<open>parents\<close> and \<open>exist_ok\<close>), and the worker's
  methods called with their arguments.
\<close>

datatype effect =
    Critical string string
  | Mkdir string bool bool
  | Call_fetch_video_info string
  | Call_download_video string string string string bool bool string bool "video_info option"
  | Call_download_thumbnail string

text \<open>
  The state of \<open>YouTubeDownloaderApp\<close>: the contents of the widgets the handlers read
  and write, \<open>current_video_info\<close>, and the history of effects. A label holds the
  argument of its last \<open>setText\<close>, the progress bar that of its last \<open>setValue\<close>, the
  thumbnail label those of its last \<open>setPixmap\<close> and \<open>setText\<close>. \<open>ui_enabled\<close> is the
  \<open>setEnabled\<close> flag \<open>set_ui_state\<close> gives every widget but the log and the progress
  display; the quality dropdown and the filename template entry carry their own flags.
  \<open>fetch_info_timer\<close> is the single-shot debounce timer: inactive, or the
  milliseconds left until it fires.
\<close>

record app =
  url_entry :: string
  output_entry :: string
  format_dropdown :: string
  quality_dropdown :: string
  playlist_check :: bool
  custom_filename_check :: bool
  filename_template_entry :: string
  embed_metadata_check :: bool
  current_video_info :: "video_info option"
  title_label :: string
  uploader_label :: string
  duration_label :: string
  views_label :: string
  thumbnail_pixmap :: pixmap
  thumbnail_text :: string
  progress_bar :: int
  progress_label :: string
  log_text :: "string list"
  ui_enabled :: bool
  quality_enabled :: bool
  filename_template_enabled :: bool
  fetch_info_timer :: "nat option"
  effects :: "effect list"

definition qualities :: "string list" where
  "qualities = [''Best'', ''1080p'', ''720p'', ''480p'', ''360p'', ''240p'', ''144p'']"

text \<open>\<open>log_message\<close> (lines 616 to 626).\<close>

definition log_message :: "string \<Rightarrow> string \<Rightarrow> app \<Rightarrow> app" where
  "log_message message message_type s =
     s\<lparr>log_text := log_text s @
         [if message_type = ''error''
          then ''<span style='' @ [CHR 0x27] @ ''color:red;'' @ [CHR 0x27] @ ''>'' @ message @ ''</span>''
          else if message_type = ''warning''
          then ''<span style='' @ [CHR 0x27] @ ''color:orange;'' @ [CHR 0x27] @ ''>'' @ message @ ''</span>''
          else message]\<rparr>"

definition show_critical :: "string \<Rightarrow> string \<Rightarrow> app \<Rightarrow> app" where
  "show_critical t m s = s\<lparr>effects := effects s @ [Critical t m]\<rparr>"

text \<open>\<open>_update_progress\<close> (lines 628 to 630).\<close>

definition update_progress :: "int \<Rightarrow> app \<Rightarrow> app" where
  "update_progress percent s =
     s\<lparr>progress_bar := percent, progress_label := ''[ '' @ str_of_int percent @ ''% ]''\<rparr>"

text \<open>
  \<open>_on_download_complete\<close> (lines 632 to 635). The message starts with the character
  U+2705, beyond the characters of the model; it is written as its three UTF-8 bytes.
\<close>

definition on_download_complete :: "app \<Rightarrow> app" where
  "on_download_complete s =
     (log_message ([CHR 0xE2, CHR 0x9C, CHR 0x85] @
                   '' Download complete and file processed successfully!'') ''info'' s)
       \<lparr>progress_bar := 100, progress_label := ''[ 100% ]''\<rparr>"

text \<open>\<open>_on_download_error\<close> (lines 637 to 639).\<close>

definition on_download_error :: "string \<Rightarrow> app \<Rightarrow> app" where
  "on_download_error message s =
     show_critical ''Download Error'' message (log_message (''ERROR: '' @ message) ''error'' s)"

text \<open>\<open>clear_preview\<close> (lines 697 to 704).\<close>

definition clear_preview :: "app \<Rightarrow> app" where
  "clear_preview s =
     s\<lparr>title_label := ''N/A'', uploader_label := ''N/A'', duration_label := ''N/A'',
       views_label := ''N/A'', thumbnail_pixmap := Null_pixmap,
       thumbnail_text := ''No thumbnail available'', current_video_info := None\<rparr>"

text \<open>\<open>_on_info_error\<close> (lines 641 to 644).\<close>

definition on_info_error :: "string \<Rightarrow> app \<Rightarrow> app" where
  "on_info_error message s =
     clear_preview
       (show_critical ''Info Fetch Error'' message (log_message (''ERROR: '' @ message) ''error'' s))"

text \<open>\<open>_display_thumbnail\<close> and \<open>_on_thumbnail_error\<close> (lines 646 to 652).\<close>

definition display_thumbnail :: "pixmap \<Rightarrow> app \<Rightarrow> app" where
  "display_thumbnail pixmap s = s\<lparr>thumbnail_pixmap := pixmap, thumbnail_text := []\<rparr>"

definition on_thumbnail_error :: "app \<Rightarrow> app" where
  "on_thumbnail_error s =
     s\<lparr>thumbnail_text := ''Thumbnail failed to load'', thumbnail_pixmap := Null_pixmap\<rparr>"

text \<open>\<open>toggle_quality_dropdown\<close> and \<open>toggle_filename_template_entry\<close> (lines 670 to 677).\<close>

definition toggle_quality_dropdown :: "app \<Rightarrow> app" where
  "toggle_quality_dropdown s = s\<lparr>quality_enabled := (format_dropdown s \<noteq> ''mp3'')\<rparr>"

definition toggle_filename_template_entry :: "app \<Rightarrow> app" where
  "toggle_filename_template_entry s = s\<lparr>filename_template_enabled := custom_filename_check s\<rparr>"

text \<open>\<open>set_ui_state\<close> (lines 706 to 717).\<close>

definition set_ui_state :: "string \<Rightarrow> app \<Rightarrow> app" where
  "set_ui_state state s =
     (let enable = (state = ''enabled'')
      in toggle_filename_template_entry
           (toggle_quality_dropdown
              (s\<lparr>ui_enabled := enable, quality_enabled := enable,
                 filename_template_enabled := enable\<rparr>)))"

text \<open>
  The slots connected to the worker's signals (lines 192 to 200) that call nothing
  further. Each signal is handled when it is emitted, in the order of emission. The slot
  of \<open>info_fetched\<close> calls the worker again and is \<open>display_video_info\<close> below.
\<close>

fun basic_slot :: "signal \<Rightarrow> app \<Rightarrow> app" where
  "basic_slot (Log_message message message_type) s = log_message message message_type s"
| "basic_slot (Progress_update percent) s = update_progress percent s"
| "basic_slot Download_complete s = on_download_complete s"
| "basic_slot (Download_error message) s = on_download_error message s"
| "basic_slot (Info_error message) s = on_info_error message s"
| "basic_slot (Thumbnail_loaded pixmap) s = display_thumbnail pixmap s"
| "basic_slot Thumbnail_error s = on_thumbnail_error s"
| "basic_slot Operation_finished s = set_ui_state ''enabled'' s"
| "basic_slot (Info_fetched info) s = s"

text \<open>
  \<open>str(datetime.timedelta(seconds=n))\<close> for an integer \<open>n\<close>: days and a time of day
  \<open>H:MM:SS\<close>; \<open>OverflowError\<close> beyond 999999999 days.
\<close>

definition timedelta_str :: "int \<Rightarrow> exn + string" where
  "timedelta_str seconds =
     (let days = seconds div 86400;
          secs = seconds mod 86400;
          ss = secs mod 60;
          hh = (secs div 60) div 60;
          mm = (secs div 60) mod 60;
          hms = decimal hh @ '':'' @ two_digits mm @ '':'' @ two_digits ss
      in if 999999999 < \<bar>days\<bar> then
           Inl (OverflowError
                  (if - 2147483648 \<le> days \<and> days \<le> 2147483647
                   then ''days='' @ str_of_int days @ ''; must have magnitude <= 999999999''
                   else ''Python int too large to convert to C int''))
         else if days \<noteq> 0 then
           Inr (str_of_int days @ '' day'' @ (if \<bar>days\<bar> \<noteq> 1 then ''s'' else []) @ '', '' @ hms)
         else Inr hms)"

text \<open>The text of the duration label (lines 738 to 748).\<close>

definition duration_text :: "int option \<Rightarrow> exn + string" where
  "duration_text duration_seconds =
     (case duration_seconds of
        None \<Rightarrow> Inr ''N/A''
      | Some n \<Rightarrow>
          (case timedelta_str n of
             Inl e \<Rightarrow> Inl e
           | Inr duration_str \<Rightarrow>
               (let parts = split duration_str CHR '':''
                in Inr (if length parts = 3 \<and> hd parts = ''0''
                        then join '':'' (tl parts) else duration_str))))"

text \<open>\<open>_update_available_qualities\<close> (lines 766 to 791).\<close>

definition update_available_qualities :: "video_info \<Rightarrow> app \<Rightarrow> app" where
  "update_available_qualities info s =
     (if \<not> dict_nonempty info \<or> ''formats'' \<notin> set (other_keys info) then
        (log_message
           ''Could not get format details for quality dropdown. Using default qualities.''
           ''warning'' s)\<lparr>quality_dropdown := ''Best''\<rparr>
      else
        (let current_text = quality_dropdown s
         in log_message
              (''Available video qualities are set to standard options: '' @ join '', '' qualities)
              ''info''
              (s\<lparr>quality_dropdown :=
                   (if current_text \<in> set qualities then current_text else ''Best'')\<rparr>)))"

text \<open>
  \<open>_display_video_info\<close> (lines 731 to 763): the state when the slot is left, and the
  exception that leaves it. The worker's \<open>download_thumbnail\<close> is called directly, and
  its signals are handled as they are emitted.
\<close>

definition display_video_info :: "env \<Rightarrow> video_info \<Rightarrow> app \<Rightarrow> app \<times> exn option" where
  "display_video_info env info s =
     (let s1 = log_message ''Video info fetched successfully.'' ''info''
                 (s\<lparr>current_video_info := Some info\<rparr>);
          s2 = s1\<lparr>title_label := (case title info of Some t \<Rightarrow> t | None \<Rightarrow> ''N/A''),
                  uploader_label := (case uploader info of Some u \<Rightarrow> u | None \<Rightarrow> ''N/A'')\<rparr>
      in case duration_text (duration info) of
           Inl e \<Rightarrow> (s2, Some e)
         | Inr duration_str \<Rightarrow>
             (let s3 = s2\<lparr>duration_label := duration_str,
                          views_label := (case view_count info of
                                            Some views \<Rightarrow> format_thousands views
                                          | None \<Rightarrow> ''N/A'')\<rparr>
              in if (case thumbnail info of Some u \<Rightarrow> u \<noteq> [] | None \<Rightarrow> False) then
                   (let thumbnail_url = the (thumbnail info);
                        s4 = log_message ''Downloading thumbnail...'' ''info'' s3;
                        s5 = s4\<lparr>effects := effects s4 @ [Call_download_thumbnail thumbnail_url]\<rparr>
                    in case download_thumbnail env thumbnail_url of
                         (sigs, raised) \<Rightarrow>
                           (let s6 = foldl (\<lambda>t g. basic_slot g t) s5 sigs
                            in case raised of
                                 Some e \<Rightarrow> (s6, Some e)
                               | None \<Rightarrow> (update_available_qualities info s6, None)))
                 else
                   (update_available_qualities info
                      (log_message ''No thumbnail URL found.'' ''warning''
                         (s3\<lparr>thumbnail_pixmap := Null_pixmap,
                             thumbnail_text := ''No thumbnail available''\<rparr>)),
                    None)))"

text \<open>
  The slot of each signal, and the delivery of a list of signals in order. An exception
  that leaves a slot ends the delivery.
\<close>

definition slot :: "env \<Rightarrow> signal \<Rightarrow> app \<Rightarrow> app \<times> exn option" where
  "slot env g s =
     (case g of
        Info_fetched info \<Rightarrow> display_video_info env info s
      | _ \<Rightarrow> (basic_slot g s, None))"

fun deliver :: "env \<Rightarrow> signal list \<Rightarrow> app \<Rightarrow> app \<times> exn option" where
  "deliver env [] s = (s, None)"
| "deliver env (g # gs) s =
     (case slot env g s of
        (s', Some e) \<Rightarrow> (s', Some e)
      | (s', None) \<Rightarrow> deliver env gs s')"

text \<open>
  A call of a worker method from the window: the signals are delivered, then the
  exception that left the method, if any, leaves the caller.
\<close>

definition run_worker :: "env \<Rightarrow> signal list \<times> exn option \<Rightarrow> app \<Rightarrow> app \<times> exn option" where
  "run_worker env r s =
     (case deliver env (fst r) s of
        (s', Some e) \<Rightarrow> (s', Some e)
      | (s', None) \<Rightarrow> (s', snd r))"

text \<open>\<open>_start_fetch_info_worker\<close> (lines 719 to 729).\<close>

definition start_fetch_info_worker :: "env \<Rightarrow> app \<Rightarrow> app \<times> exn option" where
  "start_fetch_info_worker env s =
     (let url = strip (url_entry s)
      in if \<not> is_valid_youtube_url (QUrl env) url \<or>
            (case current_video_info s of
               None \<Rightarrow> False
             | Some i \<Rightarrow> dict_nonempty i \<and>
                 (case webpage_url i of Some w \<Rightarrow> w | None \<Rightarrow> []) = url)
         then (s, None)
         else
           (let s1 = clear_preview s;
                s2 = log_message (''Fetching info for: '' @ url @ ''...'') ''info'' s1;
                s3 = set_ui_state ''disabled'' s2;
                s4 = s3\<lparr>effects := effects s3 @ [Call_fetch_video_info url]\<rparr>
            in run_worker env (fetch_video_info env url) s4))"

text \<open>\<open>_schedule_fetch_info\<close> (lines 427 to 434); the timer's interval is 700 ms.\<close>

definition schedule_fetch_info :: "env \<Rightarrow> app \<Rightarrow> app" where
  "schedule_fetch_info env s =
     (let url_text = strip (url_entry s)
      in if is_valid_youtube_url (QUrl env) url_text
         then s\<lparr>fetch_info_timer := Some 700\<rparr>
         else clear_preview (s\<lparr>fetch_info_timer := None\<rparr>))"

text \<open>
  The events of the URL entry and of the timer (lines 419 to 423): a change of the text
  calls \<open>_schedule_fetch_info\<close>; when the time left has passed, the single-shot timer
  becomes inactive and calls \<open>_start_fetch_info_worker\<close>.
\<close>

definition url_text_changed :: "env \<Rightarrow> string \<Rightarrow> app \<Rightarrow> app" where
  "url_text_changed env text s = schedule_fetch_info env (s\<lparr>url_entry := text\<rparr>)"

definition time_passes :: "env \<Rightarrow> nat \<Rightarrow> app \<Rightarrow> app \<times> exn option" where
  "time_passes env ms s =
     (case fetch_info_timer s of
        None \<Rightarrow> (s, None)
      | Some left \<Rightarrow>
          if ms < left then (s\<lparr>fetch_info_timer := Some (left - ms)\<rparr>, None)
          else start_fetch_info_worker env (s\<lparr>fetch_info_timer := None\<rparr>))"

text \<open>
  The end of \<open>_start_download_worker\<close> (lines 818 to 834), reached when the output
  directory is there: the widgets are disabled and \<open>download_video\<close> is called.
\<close>

definition dispatch_download :: "env \<Rightarrow> string \<Rightarrow> string \<Rightarrow> app \<Rightarrow> app \<times> exn option" where
  "dispatch_download env url output_path s =
     (let s3 = log_message (''Preparing download for: '' @ url) ''info'' s;
          s4 = set_ui_state ''disabled'' s3;
          s5 = s4\<lparr>progress_bar := 0, progress_label := ''[  0% ]''\<rparr>;
          s6 = s5\<lparr>effects := effects s5 @
                   [Call_download_video url output_path (format_dropdown s5)
                      (quality_dropdown s5) (playlist_check s5)
                      (custom_filename_check s5) (filename_template_entry s5)
                      (embed_metadata_check s5) (current_video_info s5)]\<rparr>
      in run_worker env
           (download_video env url output_path (format_dropdown s5)
              (quality_dropdown s5) (playlist_check s5)
              (custom_filename_check s5) (filename_template_entry s5)
              (embed_metadata_check s5) (current_video_info s5))
           s6)"

text \<open>
  \<open>_start_download_worker\<close> (lines 794 to 834). \<open>is_dir\<close> is called outside the
  \<open>try\<close>, so an exception it raises leaves the handler; of the exceptions of \<open>mkdir\<close>
  the handler catches \<open>OSError\<close> only.
\<close>

definition start_download_worker :: "env \<Rightarrow> app \<Rightarrow> app \<times> exn option" where
  "start_download_worker env s =
     (let url = strip (url_entry s);
          output_path = strip (output_entry s)
      in if url = [] then
           (show_critical ''Error'' ''Please enter a YouTube URL!'' s, None)
         else if output_path = [] then
           (show_critical ''Error'' ''Please select an output path!'' s, None)
         else if \<not> is_valid_youtube_url (QUrl env) url then
           (show_critical ''Error''
              ''The entered URL does not appear to be a valid YouTube URL.'' s, None)
         else
           (case is_dir env output_path of
              Inl e \<Rightarrow> (s, Some e)
            | Inr True \<Rightarrow> dispatch_download env url output_path s
            | Inr False \<Rightarrow>
                (let s1 = s\<lparr>effects := effects s @ [Mkdir output_path True True]\<rparr>
                 in case mkdir env output_path of
                      None \<Rightarrow>
                        dispatch_download env url output_path
                          (log_message (''Created output directory: '' @ output_path) ''info'' s1)
                    | Some (OSError e) \<Rightarrow>
                        (log_message (''Error creating directory: '' @ e) ''error''
                           (show_critical ''Error''
                              (''Could not create output directory: '' @ e) s1),
                         None)
                    | Some e \<Rightarrow> (s1, Some e))))"


text \<open>
  The duration display in the specification's words: the rendering \<open>H:MM:SS\<close> of a
  number of seconds, with one leading \<open>0:\<close> stripped.
\<close>

definition hms :: "int \<Rightarrow> string" where
  "hms n = decimal (n div 3600) @ '':'' @ two_digits (n div 60 mod 60) @ '':'' @ two_digits (n mod 60)"

definition spec_duration_display :: "int \<Rightarrow> string" where
  "spec_duration_display n = (if startswith (hms n) ''0:'' then drop 2 (hms n) else hms n)"

section \<open>A sample environment and sample states\<close>

text \<open>
  Concrete collaborators and window states, on which the theorems below are run.
  \<open>sample_QUrl\<close> stands for Qt's parser on the URLs used here: an \<open>https\<close> URL is
  valid and its host is the text between the scheme and the next slash.
\<close>

definition sample_QUrl :: "string \<Rightarrow> qurl" where
  "sample_QUrl u =
     (if startswith u ''https://''
      then \<lparr>isValid = True, host = takeWhile (\<lambda>c. c \<noteq> CHR ''/'') (drop 8 u)\<rparr>
      else \<lparr>isValid = (u \<noteq> []), host = []\<rparr>)"

definition sample_info :: video_info where
  "sample_info =
     \<lparr>title = Some ''A video'', uploader = Some ''Someone'', duration = Some 83,
      view_count = Some 1234567, thumbnail = Some ''https://i.ytimg.com/vi/x/0.jpg'',
      webpage_url = Some ''https://m.youtube.com/watch?v=x'', other_keys = [''formats'']\<rparr>"

definition sample_hook_calls :: "progress list" where
  "sample_hook_calls =
     [\<lparr>status = ''downloading'', downloaded_bytes = Some 50, total_bytes = Some 200,
       total_bytes_estimate = None\<rparr>,
      \<lparr>status = ''downloading'', downloaded_bytes = Some 200, total_bytes = None,
       total_bytes_estimate = Some 200\<rparr>,
      \<lparr>status = ''finished'', downloaded_bytes = Some 200, total_bytes = Some 200,
       total_bytes_estimate = None\<rparr>]"

text \<open>\<open>str.upper\<close> on ASCII text.\<close>

definition ascii_upper :: "string \<Rightarrow> string" where
  "ascii_upper s =
     map (\<lambda>c. let n = (of_char c :: nat) in if 97 \<le> n \<and> n \<le> 122 then char_of (n - 32) else c) s"

text \<open>A conversion to the C \<open>int\<close> that keeps the low 32 bits.\<close>

definition wrap_c_int :: "int \<Rightarrow> exn + int" where
  "wrap_c_int n = Inr ((n + 2147483648) mod 4294967296 - 2147483648)"

definition sample_env :: env where
  "sample_env =
     \<lparr>QUrl = sample_QUrl,
      is_dir = (\<lambda>p. if 255 < length p then Inl (OSError ''[Errno 36] File name too long'')
                     else Inr (p = ''/home/user/Videos'')),
      mkdir = (\<lambda>p. if CHR 0x00 \<in> set p then Some (ValueError ''embedded null byte'')
                    else if startswith p ''/home/user/'' then None
                    else Some (OSError (''[Errno 13] Permission denied: '' @ p))),
      os_path_join = (\<lambda>a b. a @ ''/'' @ b),
      str_upper = ascii_upper,
      c_int = wrap_c_int,
      extract_info = (\<lambda>u. Inr sample_info),
      ydl_download = (\<lambda>opts u. (sample_hook_calls, None)),
      urlopen_read = (\<lambda>u. Inr ''image data''),
      QImage_fromData = (\<lambda>d. True)\<rparr>"

text \<open>The same environment with a download that fails after its first progress report.\<close>

definition failing_env :: env where
  "failing_env =
     sample_env\<lparr>ydl_download :=
       (\<lambda>opts u. (take 1 sample_hook_calls, Some (DownloadError ''Video unavailable'')))\<rparr>"

text \<open>
  The same environment with a collaborator that fails at once, with a message that
  names the format selector it was given and whether it was asked to embed a thumbnail.
\<close>

definition reporting_env :: env where
  "reporting_env =
     sample_env\<lparr>ydl_download :=
       (\<lambda>opts u. ([], Some (DownloadError
          (format opts @
           (if has_postprocessor EmbedThumbnail opts then '' with thumbnail''
            else '' without thumbnail'')))))\<rparr>"

definition sample_app :: app where
  "sample_app =
     \<lparr>url_entry = ''https://m.youtube.com/watch?v=x'',
      output_entry = ''/home/user/Videos'',
      format_dropdown = ''mp4'',
      quality_dropdown = ''720p'',
      playlist_check = False,
      custom_filename_check = False,
      filename_template_entry = ''%(title)s.%(ext)s'',
      embed_metadata_check = True,
      current_video_info = None,
      title_label = ''N/A'',
      uploader_label = ''N/A'',
      duration_label = ''N/A'',
      views_label = ''N/A'',
      thumbnail_pixmap = Null_pixmap,
      thumbnail_text = ''No thumbnail available'',
      progress_bar = 0,
      progress_label = ''[  0% ]'',
      log_text = [],
      ui_enabled = True,
      quality_enabled = True,
      filename_template_enabled = False,
      fetch_info_timer = None,
      effects = []\<rparr>"

text \<open>The window after the metadata of the sample URL was fetched.\<close>

definition loaded_app :: app where
  "loaded_app = sample_app\<lparr>current_video_info := Some sample_info, title_label := ''A video'',
     uploader_label := ''Someone'', duration_label := ''01:23'', views_label := ''1,234,567''\<rparr>"

text \<open>The window while an operation runs: \<open>set_ui_state('disabled')\<close> has been called.\<close>

definition busy_app :: app where
  "busy_app = set_ui_state ''disabled'' sample_app"

section \<open>The URL validator\<close>

lemma non_www_domains:
  "filter (\<lambda>domain. \<not> startswith domain ''www'') youtube_domains =
     [''youtube.com'', ''m.youtube.com'', ''youtu.be'']"
  by (simp add: youtube_domains_def startswith_def)

lemma suffix_www_youtube_com:
  assumes "suffix ''.www.youtube.com'' h"
  shows "suffix ''.youtube.com'' h"
proof -
  have "''.www.youtube.com'' = ''.www'' @ ''.youtube.com''" by simp
  with assms show ?thesis by (metis suffix_appendD)
qed

lemma suffix_www_youtu_be:
  assumes "suffix ''.www.youtu.be'' h"
  shows "suffix ''.youtu.be'' h"
proof -
  have "''.www.youtu.be'' = ''.www'' @ ''.youtu.be''" by simp
  with assms show ?thesis by (metis suffix_appendD)
qed

lemma host_check_eq_spec:
  "(h \<in> set youtube_domains \<or>
    list_ex (\<lambda>domain. endswith h (''.'' @ domain))
      (filter (\<lambda>domain. \<not> startswith domain ''www'') youtube_domains))
   = spec_allowed_host h"
  unfolding non_www_domains
  unfolding spec_allowed_host_def youtube_domains_def endswith_def
  using suffix_www_youtube_com [of h] suffix_www_youtu_be [of h]
  by auto

lemma is_valid_youtube_url_iff:
  "is_valid_youtube_url parse u \<longleftrightarrow> isValid (parse u) \<and> spec_allowed_host (host (parse u))"
  unfolding is_valid_youtube_url_def Let_def
  using host_check_eq_spec [of "host (parse u)"] by auto

lemma evil_host_not_allowed: "\<not> spec_allowed_host ''youtube.com.evil.com''"
  by (simp add: spec_allowed_host_def youtube_domains_def suffix_def)

lemma m_host_allowed: "spec_allowed_host ''m.youtube.com''"
  by (simp add: spec_allowed_host_def youtube_domains_def)

lemma sample_url_valid:
  "is_valid_youtube_url sample_QUrl ''https://m.youtube.com/watch?v=x''"
  by (simp add: is_valid_youtube_url_iff sample_QUrl_def startswith_def m_host_allowed)

text \<open>
  Claim C1. For every string \<open>s\<close>, whatever Qt's parser makes of it, the validator
  accepts \<open>s\<close> iff \<open>s\<close> parses as a valid URL whose host equals one of the five allowed
  hosts or ends with a dot followed by one of them. A URL whose host is
  \<open>youtube.com.evil.com\<close> is rejected, and \<open>https://m.youtube.com/watch?v=x\<close>, once
  parsed as a valid URL with host \<open>m.youtube.com\<close>, is accepted.
\<close>

theorem is_valid_youtube_url_iff_spec:
  "(is_valid_youtube_url parse s \<longleftrightarrow>
      isValid (parse s) \<and> spec_allowed_host (host (parse s))) \<and>
   (host (parse s) = ''youtube.com.evil.com'' \<longrightarrow> \<not> is_valid_youtube_url parse s) \<and>
   (isValid (parse ''https://m.youtube.com/watch?v=x'') \<and>
    host (parse ''https://m.youtube.com/watch?v=x'') = ''m.youtube.com''
      \<longrightarrow> is_valid_youtube_url parse ''https://m.youtube.com/watch?v=x'')"
  using is_valid_youtube_url_iff [of parse s]
    is_valid_youtube_url_iff [of parse "''https://m.youtube.com/watch?v=x''"]
    evil_host_not_allowed m_host_allowed
  by auto

theorem is_valid_youtube_url_iff_spec_witness:
  "is_valid_youtube_url sample_QUrl ''https://m.youtube.com/watch?v=x'' \<and>
   \<not> is_valid_youtube_url sample_QUrl ''https://youtube.com.evil.com/watch?v=x'' \<and>
   host (sample_QUrl ''https://youtube.com.evil.com/watch?v=x'') = ''youtube.com.evil.com''"
proof -
  have evil: "host (sample_QUrl ''https://youtube.com.evil.com/watch?v=x'') = ''youtube.com.evil.com''"
    by (simp add: sample_QUrl_def startswith_def)
  have m: "isValid (sample_QUrl ''https://m.youtube.com/watch?v=x'') \<and>
      host (sample_QUrl ''https://m.youtube.com/watch?v=x'') = ''m.youtube.com''"
    by (simp add: sample_QUrl_def startswith_def)
  from is_valid_youtube_url_iff_spec [of sample_QUrl "''https://youtube.com.evil.com/watch?v=x''"] evil
  have "\<not> is_valid_youtube_url sample_QUrl ''https://youtube.com.evil.com/watch?v=x''"
    by blast
  moreover
  from is_valid_youtube_url_iff_spec [of sample_QUrl "''https://m.youtube.com/watch?v=x''"] m
  have "is_valid_youtube_url sample_QUrl ''https://m.youtube.com/watch?v=x''"
    by blast
  ultimately show ?thesis using evil by blast
qed

section \<open>The options of a download\<close>

lemma select_format_720p:
  "select_format ''mp4'' ''720p'' = (''bestvideo[height<=720]+bestaudio/best'', [])"
  by code_simp

lemma py_int_examples:
  "py_int (replace ''720p'' CHR ''p'' []) = Some 720"
  "py_int (replace ''abc'' CHR ''p'' []) = None"
  by code_simp+

lemma dropdown_heights:
  "map (\<lambda>q. fst (select_format ''mp4'' q)) qualities =
     [''bestvideo*+bestaudio/best'',
      ''bestvideo[height<=1080]+bestaudio/best'',
      ''bestvideo[height<=720]+bestaudio/best'',
      ''bestvideo[height<=480]+bestaudio/best'',
      ''bestvideo[height<=360]+bestaudio/best'',
      ''bestvideo[height<=240]+bestaudio/best'',
      ''bestvideo[height<=144]+bestaudio/best'']"
  by code_simp

lemma download_opts_fst_format:
  "format (fst (download_opts env out ff q pl cf ft em vi)) = fst (select_format ff q)"
  by (simp add: download_opts_def split: prod.splits)

lemma download_opts_snd:
  "snd (download_opts env out ff q pl cf ft em vi) =
     snd (select_format ff q) @ snd (build_postprocessors ff em vi)"
  by (simp add: download_opts_def split: prod.splits)

lemma download_opts_postprocessors:
  "postprocessors (fst (download_opts env out ff q pl cf ft em vi)) =
     (if fst (build_postprocessors ff em vi) \<noteq> [] then Some (fst (build_postprocessors ff em vi)) else None)"
  by (simp add: download_opts_def split: prod.splits)

lemma download_video_starts:
  "\<exists>rest. fst (download_video env url out ff q pl cf ft em vi) =
     snd (download_opts env out ff q pl cf ft em vi) @
     [Log_message (''Starting download of '' @ str_upper env ff @ ''...'') ''info''] @ rest"
  by (simp add: download_video_def Let_def split: prod.splits option.splits exn.splits)

text \<open>
  The outcome of \<open>download_video\<close> is the collaborator's answer to the options of
  \<open>download_opts\<close>: what is emitted before the call, the start message, the signals of
  the hook calls the collaborator makes for these options, and the ending its result
  for these options decides.
\<close>

lemma download_video_success:
  assumes "ydl_download env (fst (download_opts env out ff q pl cf ft em vi)) url = (calls, None)"
    and "snd (run_hooks env calls) = None"
  shows "download_video env url out ff q pl cf ft em vi =
     (snd (download_opts env out ff q pl cf ft em vi) @
      [Log_message (''Starting download of '' @ str_upper env ff @ ''...'') ''info''] @
      fst (run_hooks env calls) @ [Download_complete, Operation_finished], None)"
  using assms
  by (cases "download_opts env out ff q pl cf ft em vi"; cases "run_hooks env calls")
    (simp add: download_video_def Let_def)

lemma download_video_download_error:
  assumes "ydl_download env (fst (download_opts env out ff q pl cf ft em vi)) url =
      (calls, Some (DownloadError m))"
    and "snd (run_hooks env calls) = None"
  shows "download_video env url out ff q pl cf ft em vi =
     (snd (download_opts env out ff q pl cf ft em vi) @
      [Log_message (''Starting download of '' @ str_upper env ff @ ''...'') ''info''] @
      fst (run_hooks env calls) @
      [Download_error (''Download error: '' @ m @ [CHR 0x0A] @
         ''Possible issues: Invalid URL, geo-restriction, or missing FFmpeg/dependencies.''),
       Operation_finished], None)"
  using assms
  by (cases "download_opts env out ff q pl cf ft em vi"; cases "run_hooks env calls")
    (simp add: download_video_def Let_def)

lemma select_format_cases:
  "fst (select_format ff q) =
     (if ff = ''mp3'' then ''bestaudio/best''
      else if q = ''Best'' then ''bestvideo*+bestaudio/best''
      else (case py_int (replace q CHR ''p'' []) of
              Some h \<Rightarrow> ''bestvideo[height<='' @ str_of_int h @ '']+bestaudio/best''
            | None \<Rightarrow> ''bestvideo*+bestaudio/best''))"
  by (simp add: select_format_def Let_def split: option.splits)

lemma select_format_warning:
  assumes "ff \<noteq> ''mp3''" and "q \<noteq> ''Best''" and "py_int (replace q CHR ''p'' []) = None"
  shows "snd (select_format ff q) =
     [Log_message (''Invalid quality selected: '' @ q @
                   ''. Falling back to '' @ [CHR 0x27] @ ''Best'' @ [CHR 0x27] @ ''.'')
        ''warning'']"
  using assms by (simp add: select_format_def Let_def)

lemma select_format_silent:
  assumes "ff = ''mp3'' \<or> q = ''Best'' \<or> py_int (replace q CHR ''p'' []) \<noteq> None"
  shows "snd (select_format ff q) = []"
  using assms by (auto simp: select_format_def Let_def split: option.splits)

text \<open>
  Claim C4. The format selector among the options handed to the download collaborator is
  \<open>bestaudio/best\<close> for the format \<open>mp3\<close>; otherwise \<open>bestvideo*+bestaudio/best\<close> for the
  quality \<open>Best\<close>; otherwise \<open>bestvideo[height<=H]+bestaudio/best\<close>, where \<open>H\<close> is the
  integer that \<open>int\<close> reads from the label without its letters \<open>p\<close> (720 for \<open>720p\<close>, and
  each label of the dropdown gives its own number); and when that text is no integer (as
  for \<open>abc\<close>) the selector is the one of \<open>Best\<close> and \<open>download_video\<close> emits a warning.
  These options are the ones the collaborator is called with: what \<open>download_video\<close>
  emits and returns is decided by the collaborator's answer to exactly them, for a
  download that succeeds and for one that fails with \<open>DownloadError\<close>.
\<close>

theorem download_opts_format_selector:
  "format (fst (download_opts env out ff q pl cf ft em vi)) =
     (if ff = ''mp3'' then ''bestaudio/best''
      else if q = ''Best'' then ''bestvideo*+bestaudio/best''
      else (case py_int (replace q CHR ''p'' []) of
              Some h \<Rightarrow> ''bestvideo[height<='' @ str_of_int h @ '']+bestaudio/best''
            | None \<Rightarrow> ''bestvideo*+bestaudio/best'')) \<and>
   (ff \<noteq> ''mp3'' \<and> q \<noteq> ''Best'' \<and> py_int (replace q CHR ''p'' []) = None \<longrightarrow>
      Log_message (''Invalid quality selected: '' @ q @
                   ''. Falling back to '' @ [CHR 0x27] @ ''Best'' @ [CHR 0x27] @ ''.'')
        ''warning'' \<in> set (fst (download_video env url out ff q pl cf ft em vi))) \<and>
   py_int (replace ''720p'' CHR ''p'' []) = Some 720 \<and>
   py_int (replace ''abc'' CHR ''p'' []) = None \<and>
   map (\<lambda>l. fst (select_format ''mp4'' l)) qualities =
     [''bestvideo*+bestaudio/best'',
      ''bestvideo[height<=1080]+bestaudio/best'',
      ''bestvideo[height<=720]+bestaudio/best'',
      ''bestvideo[height<=480]+bestaudio/best'',
      ''bestvideo[height<=360]+bestaudio/best'',
      ''bestvideo[height<=240]+bestaudio/best'',
      ''bestvideo[height<=144]+bestaudio/best''] \<and>
   (\<forall>calls. ydl_download env (fst (download_opts env out ff q pl cf ft em vi)) url = (calls, None) \<and>
      snd (run_hooks env calls) = None \<longrightarrow>
      download_video env url out ff q pl cf ft em vi =
        (snd (download_opts env out ff q pl cf ft em vi) @
         [Log_message (''Starting download of '' @ str_upper env ff @ ''...'') ''info''] @
         fst (run_hooks env calls) @ [Download_complete, Operation_finished], None)) \<and>
   (\<forall>calls m. ydl_download env (fst (download_opts env out ff q pl cf ft em vi)) url =
        (calls, Some (DownloadError m)) \<and>
      snd (run_hooks env calls) = None \<longrightarrow>
      download_video env url out ff q pl cf ft em vi =
        (snd (download_opts env out ff q pl cf ft em vi) @
         [Log_message (''Starting download of '' @ str_upper env ff @ ''...'') ''info''] @
         fst (run_hooks env calls) @
         [Download_error (''Download error: '' @ m @ [CHR 0x0A] @
            ''Possible issues: Invalid URL, geo-restriction, or missing FFmpeg/dependencies.''),
          Operation_finished], None))"
proof -
  have sel: "format (fst (download_opts env out ff q pl cf ft em vi)) =
     (if ff = ''mp3'' then ''bestaudio/best''
      else if q = ''Best'' then ''bestvideo*+bestaudio/best''
      else (case py_int (replace q CHR ''p'' []) of
              Some h \<Rightarrow> ''bestvideo[height<='' @ str_of_int h @ '']+bestaudio/best''
            | None \<Rightarrow> ''bestvideo*+bestaudio/best''))"
    by (simp only: download_opts_fst_format select_format_cases)
  have warn: "Log_message (''Invalid quality selected: '' @ q @
                   ''. Falling back to '' @ [CHR 0x27] @ ''Best'' @ [CHR 0x27] @ ''.'')
        ''warning'' \<in> set (fst (download_video env url out ff q pl cf ft em vi))"
    if "ff \<noteq> ''mp3''" "q \<noteq> ''Best''" "py_int (replace q CHR ''p'' []) = None"
  proof -
    obtain rest where "fst (download_video env url out ff q pl cf ft em vi) =
        snd (download_opts env out ff q pl cf ft em vi) @
        [Log_message (''Starting download of '' @ str_upper env ff @ ''...'') ''info''] @ rest"
      using download_video_starts by blast
    then show ?thesis
      by (simp add: download_opts_snd select_format_warning [OF that])
  qed
  show ?thesis
    using sel warn py_int_examples dropdown_heights
      download_video_success [of env out ff q pl cf ft em vi url]
      download_video_download_error [of env out ff q pl cf ft em vi url]
    by blast
qed

theorem download_opts_format_selector_witness:
  "format (fst (download_opts sample_env ''/home/user/Videos'' ''mp4'' ''abc'' False False [] False None))
     = ''bestvideo*+bestaudio/best'' \<and>
   Log_message (''Invalid quality selected: abc. Falling back to '' @ [CHR 0x27] @ ''Best'' @ [CHR 0x27] @ ''.'')
     ''warning''
     \<in> set (fst (download_video sample_env ''https://m.youtube.com/watch?v=x'' ''/home/user/Videos''
                  ''mp4'' ''abc'' False False [] False None)) \<and>
   download_video reporting_env ''https://m.youtube.com/watch?v=x'' ''/home/user/Videos''
       ''mp4'' ''720p'' False False [] False None =
     ([Log_message (''Starting download of '' @ ascii_upper ''mp4'' @ ''...'') ''info'',
       Download_error (''Download error: bestvideo[height<=720]+bestaudio/best without thumbnail'' @
          [CHR 0x0A] @
          ''Possible issues: Invalid URL, geo-restriction, or missing FFmpeg/dependencies.''),
       Operation_finished], None)"
proof -
  note abc = download_opts_format_selector
    [of sample_env "''/home/user/Videos''" "''mp4''" "''abc''" False False "[]" False None
        "''https://m.youtube.com/watch?v=x''"]
  note hd = download_opts_format_selector
    [of reporting_env "''/home/user/Videos''" "''mp4''" "''720p''" False False "[]" False None
        "''https://m.youtube.com/watch?v=x''"]
  have first: "format (fst (download_opts sample_env ''/home/user/Videos'' ''mp4'' ''abc'' False False [] False None))
     = ''bestvideo*+bestaudio/best''"
    using abc by simp
  have second: "Log_message (''Invalid quality selected: abc. Falling back to '' @ [CHR 0x27] @ ''Best'' @ [CHR 0x27] @ ''.'')
     ''warning''
     \<in> set (fst (download_video sample_env ''https://m.youtube.com/watch?v=x'' ''/home/user/Videos''
                  ''mp4'' ''abc'' False False [] False None))"
    using abc by simp
  have fmt: "format (fst (download_opts reporting_env ''/home/user/Videos'' ''mp4'' ''720p''
      False False [] False None)) = ''bestvideo[height<=720]+bestaudio/best''"
    by (simp add: download_opts_fst_format select_format_720p)
  have nothumb: "\<not> has_postprocessor EmbedThumbnail (fst (download_opts reporting_env
      ''/home/user/Videos'' ''mp4'' ''720p'' False False [] False None))"
    by (simp add: has_postprocessor_def download_opts_postprocessors build_postprocessors_def)
  have answer: "ydl_download reporting_env (fst (download_opts reporting_env ''/home/user/Videos''
      ''mp4'' ''720p'' False False [] False None)) ''https://m.youtube.com/watch?v=x'' =
      ([], Some (DownloadError ''bestvideo[height<=720]+bestaudio/best without thumbnail''))"
    using fmt nothumb by (simp add: reporting_env_def)
  have silent: "snd (download_opts reporting_env ''/home/user/Videos'' ''mp4'' ''720p''
      False False [] False None) = []"
    using hd by (simp add: download_opts_snd select_format_silent build_postprocessors_def)
  have upper: "str_upper reporting_env = ascii_upper"
    by (simp add: reporting_env_def sample_env_def)
  have third: "download_video reporting_env ''https://m.youtube.com/watch?v=x'' ''/home/user/Videos''
       ''mp4'' ''720p'' False False [] False None =
     ([Log_message (''Starting download of '' @ ascii_upper ''mp4'' @ ''...'') ''info'',
       Download_error (''Download error: bestvideo[height<=720]+bestaudio/best without thumbnail'' @
          [CHR 0x0A] @
          ''Possible issues: Invalid URL, geo-restriction, or missing FFmpeg/dependencies.''),
       Operation_finished], None)"
    using hd answer by (simp add: silent upper)
  from first second third show ?thesis by blast
qed

section \<open>Embedding the thumbnail\<close>

lemma build_postprocessors_thumbnail:
  "EmbedThumbnail \<in> set (fst (build_postprocessors ff em vi)) \<longleftrightarrow>
     em \<and> (\<exists>i u. vi = Some i \<and> thumbnail i = Some u \<and> u \<noteq> [])"
  by (auto simp: build_postprocessors_def Let_def dict_nonempty_def split: option.splits)

lemma build_postprocessors_warning:
  assumes "em" and "\<not> (\<exists>i u. vi = Some i \<and> thumbnail i = Some u \<and> u \<noteq> [])"
  shows "snd (build_postprocessors ff em vi) =
     [Log_message
        ''Warning: Cannot embed thumbnail as no video info or thumbnail URL was available.''
        ''warning'']"
    and "FFmpegMetadata \<in> set (fst (build_postprocessors ff em vi))"
  using assms
  by (auto simp: build_postprocessors_def Let_def split: option.splits)

lemma has_postprocessor_download_opts:
  "has_postprocessor pp (fst (download_opts env out ff q pl cf ft em vi)) \<longleftrightarrow>
     pp \<in> set (fst (build_postprocessors ff em vi))"
  by (auto simp: has_postprocessor_def download_opts_postprocessors)

lemma build_postprocessors_without_thumbnail:
  assumes "em" and "\<not> (\<exists>i u. vi = Some i \<and> thumbnail i = Some u \<and> u \<noteq> [])"
  shows "fst (build_postprocessors ff em vi) =
     (if ff = ''mp3'' then [FFmpegExtractAudio ''mp3'' ''192''] else []) @ [FFmpegMetadata]"
  using assms
  by (auto simp: build_postprocessors_def Let_def split: option.splits)

lemma build_postprocessors_with_thumbnail:
  assumes "em" and "\<exists>i u. vi = Some i \<and> thumbnail i = Some u \<and> u \<noteq> []"
  shows "fst (build_postprocessors ff em vi) =
     (if ff = ''mp3'' then [FFmpegExtractAudio ''mp3'' ''192''] else []) @
     [FFmpegMetadata, EmbedThumbnail]"
  using assms
  by (auto simp: build_postprocessors_def Let_def dict_nonempty_def split: option.splits)

text \<open>
  Claim C9. With metadata embedding enabled, the options of the download name the
  thumbnail-embedding step iff the metadata snapshot passed with the request is present
  and holds a thumbnail URL (a string that is not empty); the postprocessors are then
  the audio extraction (for \<open>mp3\<close>), the metadata step and the thumbnail step. Otherwise
  the warning is emitted, the postprocessors are the same without the thumbnail step,
  and the download goes on with these options: what \<open>download_video\<close> emits and returns
  is the warning, the start message and then what the collaborator's answer to exactly
  these options decides, for a download that succeeds and for one that fails with
  \<open>DownloadError\<close>.
\<close>

theorem embed_thumbnail_iff_snapshot_has_thumbnail:
  assumes "em"
  shows
  "(has_postprocessor EmbedThumbnail (fst (download_opts env out ff q pl cf ft em vi)) \<longleftrightarrow>
      (\<exists>i u. vi = Some i \<and> thumbnail i = Some u \<and> u \<noteq> [])) \<and>
   ((\<exists>i u. vi = Some i \<and> thumbnail i = Some u \<and> u \<noteq> []) \<longrightarrow>
      postprocessors (fst (download_opts env out ff q pl cf ft em vi)) =
        Some ((if ff = ''mp3'' then [FFmpegExtractAudio ''mp3'' ''192''] else []) @
              [FFmpegMetadata, EmbedThumbnail])) \<and>
   (\<not> (\<exists>i u. vi = Some i \<and> thumbnail i = Some u \<and> u \<noteq> []) \<longrightarrow>
      \<not> has_postprocessor EmbedThumbnail (fst (download_opts env out ff q pl cf ft em vi)) \<and>
      has_postprocessor FFmpegMetadata (fst (download_opts env out ff q pl cf ft em vi)) \<and>
      postprocessors (fst (download_opts env out ff q pl cf ft em vi)) =
        Some ((if ff = ''mp3'' then [FFmpegExtractAudio ''mp3'' ''192''] else []) @
              [FFmpegMetadata]) \<and>
      (\<forall>calls. ydl_download env (fst (download_opts env out ff q pl cf ft em vi)) url =
           (calls, None) \<and>
         snd (run_hooks env calls) = None \<longrightarrow>
         download_video env url out ff q pl cf ft em vi =
           (snd (select_format ff q) @
            [Log_message
               ''Warning: Cannot embed thumbnail as no video info or thumbnail URL was available.''
               ''warning'',
             Log_message (''Starting download of '' @ str_upper env ff @ ''...'') ''info''] @
            fst (run_hooks env calls) @ [Download_complete, Operation_finished], None)) \<and>
      (\<forall>calls m. ydl_download env (fst (download_opts env out ff q pl cf ft em vi)) url =
           (calls, Some (DownloadError m)) \<and>
         snd (run_hooks env calls) = None \<longrightarrow>
         download_video env url out ff q pl cf ft em vi =
           (snd (select_format ff q) @
            [Log_message
               ''Warning: Cannot embed thumbnail as no video info or thumbnail URL was available.''
               ''warning'',
             Log_message (''Starting download of '' @ str_upper env ff @ ''...'') ''info''] @
            fst (run_hooks env calls) @
            [Download_error (''Download error: '' @ m @ [CHR 0x0A] @
               ''Possible issues: Invalid URL, geo-restriction, or missing FFmpeg/dependencies.''),
             Operation_finished], None)))"
proof -
  have iff: "has_postprocessor EmbedThumbnail (fst (download_opts env out ff q pl cf ft em vi)) \<longleftrightarrow>
      (\<exists>i u. vi = Some i \<and> thumbnail i = Some u \<and> u \<noteq> [])"
    using assms by (simp add: has_postprocessor_download_opts build_postprocessors_thumbnail)
  have with_thumb: "postprocessors (fst (download_opts env out ff q pl cf ft em vi)) =
        Some ((if ff = ''mp3'' then [FFmpegExtractAudio ''mp3'' ''192''] else []) @
              [FFmpegMetadata, EmbedThumbnail])"
    if yes: "\<exists>i u. vi = Some i \<and> thumbnail i = Some u \<and> u \<noteq> []"
    by (simp add: download_opts_postprocessors build_postprocessors_with_thumbnail [OF assms yes])
  have pps: "postprocessors (fst (download_opts env out ff q pl cf ft em vi)) =
        Some ((if ff = ''mp3'' then [FFmpegExtractAudio ''mp3'' ''192''] else []) @
              [FFmpegMetadata])"
    if no: "\<not> (\<exists>i u. vi = Some i \<and> thumbnail i = Some u \<and> u \<noteq> [])"
    by (simp add: download_opts_postprocessors build_postprocessors_without_thumbnail [OF assms no])
  have meta: "has_postprocessor FFmpegMetadata (fst (download_opts env out ff q pl cf ft em vi))"
    if no: "\<not> (\<exists>i u. vi = Some i \<and> thumbnail i = Some u \<and> u \<noteq> [])"
    using build_postprocessors_warning(2) [OF assms no, of ff]
    by (simp add: has_postprocessor_download_opts)
  have sigs: "snd (download_opts env out ff q pl cf ft em vi) =
      snd (select_format ff q) @
      [Log_message
         ''Warning: Cannot embed thumbnail as no video info or thumbnail URL was available.''
         ''warning'']"
    if no: "\<not> (\<exists>i u. vi = Some i \<and> thumbnail i = Some u \<and> u \<noteq> [])"
    by (simp add: download_opts_snd build_postprocessors_warning(1) [OF assms no])
  have ok: "download_video env url out ff q pl cf ft em vi =
           (snd (select_format ff q) @
            [Log_message
               ''Warning: Cannot embed thumbnail as no video info or thumbnail URL was available.''
               ''warning'',
             Log_message (''Starting download of '' @ str_upper env ff @ ''...'') ''info''] @
            fst (run_hooks env calls) @ [Download_complete, Operation_finished], None)"
    if no: "\<not> (\<exists>i u. vi = Some i \<and> thumbnail i = Some u \<and> u \<noteq> [])"
      and c: "ydl_download env (fst (download_opts env out ff q pl cf ft em vi)) url = (calls, None)"
      and h: "snd (run_hooks env calls) = None" for calls
    by (simp add: download_video_success [OF c h] sigs [OF no])
  have failed: "download_video env url out ff q pl cf ft em vi =
           (snd (select_format ff q) @
            [Log_message
               ''Warning: Cannot embed thumbnail as no video info or thumbnail URL was available.''
               ''warning'',
             Log_message (''Starting download of '' @ str_upper env ff @ ''...'') ''info''] @
            fst (run_hooks env calls) @
            [Download_error (''Download error: '' @ m @ [CHR 0x0A] @
               ''Possible issues: Invalid URL, geo-restriction, or missing FFmpeg/dependencies.''),
             Operation_finished], None)"
    if no: "\<not> (\<exists>i u. vi = Some i \<and> thumbnail i = Some u \<and> u \<noteq> [])"
      and c: "ydl_download env (fst (download_opts env out ff q pl cf ft em vi)) url =
          (calls, Some (DownloadError m))"
      and h: "snd (run_hooks env calls) = None" for calls m
    by (simp add: download_video_download_error [OF c h] sigs [OF no])
  show ?thesis
    using iff with_thumb pps meta ok failed by blast
qed

theorem embed_thumbnail_iff_snapshot_has_thumbnail_witness:
  "has_postprocessor EmbedThumbnail
     (fst (download_opts sample_env ''/home/user/Videos'' ''mp3'' ''Best'' False False [] True
             (Some sample_info))) \<and>
   \<not> has_postprocessor EmbedThumbnail
     (fst (download_opts sample_env ''/home/user/Videos'' ''mp3'' ''Best'' False False [] True
             (Some (sample_info\<lparr>thumbnail := None\<rparr>)))) \<and>
   download_video reporting_env ''https://m.youtube.com/watch?v=x'' ''/home/user/Videos''
       ''mp3'' ''Best'' False False [] True None =
     ([Log_message
         ''Warning: Cannot embed thumbnail as no video info or thumbnail URL was available.''
         ''warning'',
       Log_message (''Starting download of '' @ ascii_upper ''mp3'' @ ''...'') ''info'',
       Download_error (''Download error: bestaudio/best without thumbnail'' @ [CHR 0x0A] @
          ''Possible issues: Invalid URL, geo-restriction, or missing FFmpeg/dependencies.''),
       Operation_finished], None)"
proof -
  have first: "has_postprocessor EmbedThumbnail
     (fst (download_opts sample_env ''/home/user/Videos'' ''mp3'' ''Best'' False False [] True
             (Some sample_info)))"
    using embed_thumbnail_iff_snapshot_has_thumbnail
      [of True sample_env "''/home/user/Videos''" "''mp3''" "''Best''" False False "[]"
          "Some sample_info"]
    by (simp add: sample_info_def)
  have second: "\<not> has_postprocessor EmbedThumbnail
     (fst (download_opts sample_env ''/home/user/Videos'' ''mp3'' ''Best'' False False [] True
             (Some (sample_info\<lparr>thumbnail := None\<rparr>))))"
    using embed_thumbnail_iff_snapshot_has_thumbnail
      [of True sample_env "''/home/user/Videos''" "''mp3''" "''Best''" False False "[]"
          "Some (sample_info\<lparr>thumbnail := None\<rparr>)"]
    by (simp add: sample_info_def)
  note none = embed_thumbnail_iff_snapshot_has_thumbnail
      [of True reporting_env "''/home/user/Videos''" "''mp3''" "''Best''" False False "[]" None
          "''https://m.youtube.com/watch?v=x''"]
  have fmt: "format (fst (download_opts reporting_env ''/home/user/Videos'' ''mp3'' ''Best''
      False False [] True None)) = ''bestaudio/best''"
    by (simp add: download_opts_fst_format select_format_cases)
  have nothumb: "\<not> has_postprocessor EmbedThumbnail (fst (download_opts reporting_env
      ''/home/user/Videos'' ''mp3'' ''Best'' False False [] True None))"
    using none by simp
  have answer: "ydl_download reporting_env (fst (download_opts reporting_env ''/home/user/Videos''
      ''mp3'' ''Best'' False False [] True None)) ''https://m.youtube.com/watch?v=x'' =
      ([], Some (DownloadError ''bestaudio/best without thumbnail''))"
    using fmt nothumb by (simp add: reporting_env_def)
  have upper: "str_upper reporting_env = ascii_upper"
    by (simp add: reporting_env_def sample_env_def)
  have third: "download_video reporting_env ''https://m.youtube.com/watch?v=x'' ''/home/user/Videos''
       ''mp3'' ''Best'' False False [] True None =
     ([Log_message
         ''Warning: Cannot embed thumbnail as no video info or thumbnail URL was available.''
         ''warning'',
       Log_message (''Starting download of '' @ ascii_upper ''mp3'' @ ''...'') ''info'',
       Download_error (''Download error: bestaudio/best without thumbnail'' @ [CHR 0x0A] @
          ''Possible issues: Invalid URL, geo-restriction, or missing FFmpeg/dependencies.''),
       Operation_finished], None)"
    using none answer by (simp add: upper select_format_silent)
  from first second third show ?thesis by blast
qed

section \<open>The history of effects only grows\<close>

lemma effects_log_message [simp]: "effects (log_message m t s) = effects s"
  by (simp add: log_message_def)

lemma effects_set_ui_state [simp]: "effects (set_ui_state st s) = effects s"
  by (simp add: set_ui_state_def toggle_quality_dropdown_def toggle_filename_template_entry_def)

lemma effects_clear_preview [simp]: "effects (clear_preview s) = effects s"
  by (simp add: clear_preview_def)

lemma effects_update_available_qualities [simp]:
  "effects (update_available_qualities i s) = effects s"
  by (simp add: update_available_qualities_def Let_def)

lemma effects_basic_slot: "\<exists>r. effects (basic_slot g s) = effects s @ r"
  by (cases g)
    (simp_all add: update_progress_def on_download_complete_def on_download_error_def
      on_info_error_def show_critical_def display_thumbnail_def on_thumbnail_error_def)

lemma effects_foldl_basic_slot:
  "\<exists>r. effects (foldl (\<lambda>t g. basic_slot g t) s gs) = effects s @ r"
proof (induction gs arbitrary: s)
  case Nil
  show ?case by simp
next
  case (Cons g gs)
  obtain r1 where r1: "effects (basic_slot g s) = effects s @ r1"
    using effects_basic_slot by blast
  obtain r2 where "effects (foldl (\<lambda>t g. basic_slot g t) (basic_slot g s) gs) =
      effects (basic_slot g s) @ r2"
    using Cons.IH by blast
  with r1 show ?case by simp
qed

lemma effects_display_video_info:
  "\<exists>r. effects (fst (display_video_info env i s)) = effects s @ r"
proof -
  have fold: "\<exists>r. effects (foldl (\<lambda>t g. basic_slot g t) s0 gs) = effects s @ r"
    if ext: "\<exists>r. effects s0 = effects s @ r" for s0 gs
  proof -
    obtain r0 where r0: "effects s0 = effects s @ r0" using ext by blast
    obtain r1 where "effects (foldl (\<lambda>t g. basic_slot g t) s0 gs) = effects s0 @ r1"
      using effects_foldl_basic_slot by blast
    with r0 show ?thesis by simp
  qed
  show ?thesis
    unfolding display_video_info_def Let_def
    by (auto split: sum.splits prod.splits option.splits intro!: fold)
qed

lemma effects_slot: "\<exists>r. effects (fst (slot env g s)) = effects s @ r"
  using effects_display_video_info [of env _ s] effects_basic_slot [of g s]
  by (cases g) (simp_all add: slot_def)

lemma effects_deliver: "\<exists>r. effects (fst (deliver env gs s)) = effects s @ r"
proof (induction gs arbitrary: s)
  case Nil
  show ?case by simp
next
  case (Cons g gs)
  obtain s1 e1 where s1: "slot env g s = (s1, e1)" by (cases "slot env g s")
  obtain r1 where r1: "effects s1 = effects s @ r1"
    using effects_slot [of env g s] s1 by auto
  show ?case
  proof (cases e1)
    case None
    obtain r2 where "effects (fst (deliver env gs s1)) = effects s1 @ r2"
      using Cons.IH by blast
    with r1 s1 None show ?thesis by simp
  next
    case (Some e)
    with r1 s1 show ?thesis by simp
  qed
qed

lemma effects_run_worker: "\<exists>r. effects (fst (run_worker env w s)) = effects s @ r"
  using effects_deliver [of env "fst w" s]
  by (auto simp: run_worker_def split: prod.splits option.splits)

section \<open>The debounced fetch\<close>

lemma webpage_url_nonempty: "webpage_url i = Some w \<Longrightarrow> dict_nonempty i"
  by (simp add: dict_nonempty_def)

lemma start_fetch_info_worker_suppressed:
  assumes "\<not> is_valid_youtube_url (QUrl env) (strip (url_entry s)) \<or>
           (\<exists>i. current_video_info s = Some i \<and> webpage_url i = Some (strip (url_entry s)))"
  shows "start_fetch_info_worker env s = (s, None)"
  using assms
  by (auto simp: start_fetch_info_worker_def Let_def webpage_url_nonempty)

text \<open>
  Claim C5. When the debounce timer fires and the URL (the stripped text of the entry)
  equals the \<open>webpage_url\<close> of the metadata now loaded, or fails the validation, the
  handler returns at once: the state is the one it was called in, so the history of
  effects holds no new call of \<open>fetch_video_info\<close>, the preview and the metadata are as
  they were, and no exception leaves the handler. The firing itself changes the timer
  only, and calling the handler again changes nothing again.
\<close>

theorem redundant_fetch_suppressed:
  assumes "\<not> is_valid_youtube_url (QUrl env) (strip (url_entry s)) \<or>
           (\<exists>i. current_video_info s = Some i \<and> webpage_url i = Some (strip (url_entry s)))"
  shows "start_fetch_info_worker env s = (s, None) \<and>
         start_fetch_info_worker env (fst (start_fetch_info_worker env s)) = (s, None) \<and>
         (\<forall>left ms. fetch_info_timer s = Some left \<and> left \<le> ms \<longrightarrow>
            time_passes env ms s = (s\<lparr>fetch_info_timer := None\<rparr>, None))"
proof -
  have here: "start_fetch_info_worker env s = (s, None)"
    using assms by (rule start_fetch_info_worker_suppressed)
  have fired: "start_fetch_info_worker env (s\<lparr>fetch_info_timer := None\<rparr>) =
      (s\<lparr>fetch_info_timer := None\<rparr>, None)"
    using assms by (intro start_fetch_info_worker_suppressed) simp
  have "time_passes env ms s = (s\<lparr>fetch_info_timer := None\<rparr>, None)"
    if "fetch_info_timer s = Some left" "left \<le> ms" for left ms
    using that fired by (simp add: time_passes_def)
  with here show ?thesis by simp
qed

theorem redundant_fetch_suppressed_witness:
  "start_fetch_info_worker sample_env loaded_app = (loaded_app, None) \<and>
   time_passes sample_env 700 (loaded_app\<lparr>fetch_info_timer := Some 700\<rparr>) =
     (loaded_app\<lparr>fetch_info_timer := None\<rparr>, None) \<and>
   start_fetch_info_worker sample_env (sample_app\<lparr>url_entry := ''not a url''\<rparr>) =
     (sample_app\<lparr>url_entry := ''not a url''\<rparr>, None)"
proof -
  have strip1: "strip ''https://m.youtube.com/watch?v=x'' = ''https://m.youtube.com/watch?v=x''"
    by (simp add: strip_def isspace_def)
  have strip2: "strip ''not a url'' = ''not a url''"
    by (simp add: strip_def isspace_def)
  have loaded: "\<exists>i. current_video_info loaded_app = Some i \<and>
      webpage_url i = Some (strip (url_entry loaded_app))"
    by (simp add: loaded_app_def sample_app_def sample_info_def strip1)
  then have loaded': "\<exists>i. current_video_info (loaded_app\<lparr>fetch_info_timer := Some 700\<rparr>) = Some i \<and>
      webpage_url i = Some (strip (url_entry (loaded_app\<lparr>fetch_info_timer := Some 700\<rparr>)))"
    by simp
  have invalid: "\<not> is_valid_youtube_url (QUrl sample_env)
      (strip (url_entry (sample_app\<lparr>url_entry := ''not a url''\<rparr>)))"
    by (simp add: strip2 is_valid_youtube_url_iff sample_env_def sample_QUrl_def startswith_def
        spec_allowed_host_def youtube_domains_def)
  have first: "start_fetch_info_worker sample_env loaded_app = (loaded_app, None)"
    using redundant_fetch_suppressed [of sample_env loaded_app] loaded by blast
  have "\<forall>left ms. fetch_info_timer (loaded_app\<lparr>fetch_info_timer := Some 700\<rparr>) = Some left \<and> left \<le> ms \<longrightarrow>
      time_passes sample_env ms (loaded_app\<lparr>fetch_info_timer := Some 700\<rparr>) =
        (loaded_app\<lparr>fetch_info_timer := Some 700\<rparr>\<lparr>fetch_info_timer := None\<rparr>, None)"
    using redundant_fetch_suppressed [of sample_env "loaded_app\<lparr>fetch_info_timer := Some 700\<rparr>"] loaded'
    by blast
  then have "fetch_info_timer (loaded_app\<lparr>fetch_info_timer := Some 700\<rparr>) = Some 700 \<and> (700::nat) \<le> 700 \<longrightarrow>
      time_passes sample_env 700 (loaded_app\<lparr>fetch_info_timer := Some 700\<rparr>) =
        (loaded_app\<lparr>fetch_info_timer := Some 700\<rparr>\<lparr>fetch_info_timer := None\<rparr>, None)"
    by blast
  then have second: "time_passes sample_env 700 (loaded_app\<lparr>fetch_info_timer := Some 700\<rparr>) =
      (loaded_app\<lparr>fetch_info_timer := None\<rparr>, None)"
    by simp
  have third: "start_fetch_info_worker sample_env (sample_app\<lparr>url_entry := ''not a url''\<rparr>) =
      (sample_app\<lparr>url_entry := ''not a url''\<rparr>, None)"
    using redundant_fetch_suppressed [of sample_env "sample_app\<lparr>url_entry := ''not a url''\<rparr>"] invalid
    by blast
  from first second third show ?thesis by blast
qed

section \<open>Changes of the URL text\<close>

lemma time_passes_inactive:
  "fetch_info_timer s = None \<Longrightarrow> time_passes env ms s = (s, None)"
  by (simp add: time_passes_def)

text \<open>
  Claim C7. When the text of the URL entry changes to one whose stripped form fails the
  validation, the debounce timer is stopped, so that no passing of time fires a fetch,
  and \<open>clear_preview\<close> runs at once: the metadata is dropped and the preview shows its
  placeholders. When the stripped text passes the validation, the timer is started
  afresh with its 700 ms, and nothing else changes.
\<close>

theorem url_text_changed_debounce:
  "(\<not> is_valid_youtube_url (QUrl env) (strip text) \<longrightarrow>
      url_text_changed env text s =
        clear_preview (s\<lparr>url_entry := text, fetch_info_timer := None\<rparr>) \<and>
      fetch_info_timer (url_text_changed env text s) = None \<and>
      (\<forall>ms. time_passes env ms (url_text_changed env text s) =
             (url_text_changed env text s, None)) \<and>
      current_video_info (url_text_changed env text s) = None \<and>
      title_label (url_text_changed env text s) = ''N/A'' \<and>
      uploader_label (url_text_changed env text s) = ''N/A'' \<and>
      duration_label (url_text_changed env text s) = ''N/A'' \<and>
      views_label (url_text_changed env text s) = ''N/A'' \<and>
      thumbnail_pixmap (url_text_changed env text s) = Null_pixmap \<and>
      thumbnail_text (url_text_changed env text s) = ''No thumbnail available'') \<and>
   (is_valid_youtube_url (QUrl env) (strip text) \<longrightarrow>
      url_text_changed env text s = s\<lparr>url_entry := text, fetch_info_timer := Some 700\<rparr>)"
proof -
  have valid: "url_text_changed env text s = s\<lparr>url_entry := text, fetch_info_timer := Some 700\<rparr>"
    if "is_valid_youtube_url (QUrl env) (strip text)"
    using that by (simp add: url_text_changed_def schedule_fetch_info_def)
  have invalid: "url_text_changed env text s =
      clear_preview (s\<lparr>url_entry := text, fetch_info_timer := None\<rparr>)"
    if "\<not> is_valid_youtube_url (QUrl env) (strip text)"
    using that by (simp add: url_text_changed_def schedule_fetch_info_def)
  have cleared: "fetch_info_timer (clear_preview t) = fetch_info_timer t \<and>
      current_video_info (clear_preview t) = None \<and>
      title_label (clear_preview t) = ''N/A'' \<and>
      uploader_label (clear_preview t) = ''N/A'' \<and>
      duration_label (clear_preview t) = ''N/A'' \<and>
      views_label (clear_preview t) = ''N/A'' \<and>
      thumbnail_pixmap (clear_preview t) = Null_pixmap \<and>
      thumbnail_text (clear_preview t) = ''No thumbnail available''" for t
    by (simp add: clear_preview_def)
  have stopped: "fetch_info_timer (clear_preview (s\<lparr>url_entry := text, fetch_info_timer := None\<rparr>)) = None"
    by (simp add: cleared)
  show ?thesis
    using valid invalid cleared stopped time_passes_inactive [OF stopped]
    by simp
qed

theorem url_text_changed_debounce_witness:
  "url_text_changed sample_env '' https://m.youtube.com/watch?v=x '' sample_app =
     sample_app\<lparr>url_entry := '' https://m.youtube.com/watch?v=x '', fetch_info_timer := Some 700\<rparr> \<and>
   fetch_info_timer
     (url_text_changed sample_env ''https://m.you'' (loaded_app\<lparr>fetch_info_timer := Some 300\<rparr>)) = None \<and>
   current_video_info
     (url_text_changed sample_env ''https://m.you'' (loaded_app\<lparr>fetch_info_timer := Some 300\<rparr>)) = None \<and>
   duration_label
     (url_text_changed sample_env ''https://m.you'' (loaded_app\<lparr>fetch_info_timer := Some 300\<rparr>)) = ''N/A''"
proof -
  have strip1: "strip '' https://m.youtube.com/watch?v=x '' = ''https://m.youtube.com/watch?v=x''"
    by (simp add: strip_def isspace_def)
  have strip2: "strip ''https://m.you'' = ''https://m.you''"
    by (simp add: strip_def isspace_def)
  have valid: "is_valid_youtube_url (QUrl sample_env) (strip '' https://m.youtube.com/watch?v=x '')"
    by (simp add: strip1 sample_env_def sample_url_valid)
  have invalid: "\<not> is_valid_youtube_url (QUrl sample_env) (strip ''https://m.you'')"
    by (simp add: strip2 is_valid_youtube_url_iff sample_env_def sample_QUrl_def startswith_def
        spec_allowed_host_def youtube_domains_def suffix_to_prefix)
  show ?thesis
    using url_text_changed_debounce [of sample_env "'' https://m.youtube.com/watch?v=x ''" sample_app]
      url_text_changed_debounce [of sample_env "''https://m.you''" "loaded_app\<lparr>fetch_info_timer := Some 300\<rparr>"]
      valid invalid
    by blast
qed

section \<open>Download requests\<close>

lemma prefix_effects_run_worker:
  assumes "prefix xs (effects s)"
  shows "prefix xs (effects (fst (run_worker env w s)))"
proof -
  obtain r where "effects (fst (run_worker env w s)) = effects s @ r"
    using effects_run_worker by blast
  with assms show ?thesis by (simp add: prefix_prefix)
qed

lemma dispatch_download_prefix:
  "prefix
     (effects s @
      [Call_download_video url output_path (format_dropdown s) (quality_dropdown s)
         (playlist_check s) (custom_filename_check s) (filename_template_entry s)
         (embed_metadata_check s) (current_video_info s)])
     (effects (fst (dispatch_download env url output_path s)))"
  unfolding dispatch_download_def Let_def
  by (simp add: set_ui_state_def toggle_quality_dropdown_def
      toggle_filename_template_entry_def log_message_def prefix_effects_run_worker)

text \<open>The four ways through the directory check of a request that passed the checks
  of the URL and of the path.\<close>

lemma start_download_worker_is_dir_raises:
  assumes "strip (url_entry s) \<noteq> []" and "strip (output_entry s) \<noteq> []"
    and "is_valid_youtube_url (QUrl env) (strip (url_entry s))"
    and "is_dir env (strip (output_entry s)) = Inl e"
  shows "start_download_worker env s = (s, Some e)"
  using assms by (simp add: start_download_worker_def Let_def)

lemma start_download_worker_mkdir_raises:
  assumes "strip (url_entry s) \<noteq> []" and "strip (output_entry s) \<noteq> []"
    and "is_valid_youtube_url (QUrl env) (strip (url_entry s))"
    and "is_dir env (strip (output_entry s)) = Inr False"
    and "mkdir env (strip (output_entry s)) = Some e" and "\<forall>m. e \<noteq> OSError m"
  shows "start_download_worker env s =
     (s\<lparr>effects := effects s @ [Mkdir (strip (output_entry s)) True True]\<rparr>, Some e)"
  using assms by (cases e) (simp_all add: start_download_worker_def Let_def)

lemma start_download_worker_mkdir_failed:
  assumes "strip (url_entry s) \<noteq> []" and "strip (output_entry s) \<noteq> []"
    and "is_valid_youtube_url (QUrl env) (strip (url_entry s))"
    and "is_dir env (strip (output_entry s)) = Inr False"
    and "mkdir env (strip (output_entry s)) = Some (OSError e)"
  shows "start_download_worker env s =
     (log_message (''Error creating directory: '' @ e) ''error''
        (s\<lparr>effects := effects s @
             [Mkdir (strip (output_entry s)) True True,
              Critical ''Error'' (''Could not create output directory: '' @ e)]\<rparr>),
      None)"
  using assms by (simp add: start_download_worker_def Let_def show_critical_def)

lemma start_download_worker_prefix:
  assumes "strip (url_entry s) \<noteq> []" and "strip (output_entry s) \<noteq> []"
    and "is_valid_youtube_url (QUrl env) (strip (url_entry s))"
    and "is_dir env (strip (output_entry s)) = Inr True \<or>
         is_dir env (strip (output_entry s)) = Inr False \<and>
         mkdir env (strip (output_entry s)) = None"
  shows "prefix
     (effects s @
      (if is_dir env (strip (output_entry s)) = Inr True then []
       else [Mkdir (strip (output_entry s)) True True]) @
      [Call_download_video (strip (url_entry s)) (strip (output_entry s)) (format_dropdown s)
         (quality_dropdown s) (playlist_check s) (custom_filename_check s)
         (filename_template_entry s) (embed_metadata_check s) (current_video_info s)])
     (effects (fst (start_download_worker env s)))"
proof (cases "is_dir env (strip (output_entry s)) = Inr True")
  case True
  with assms show ?thesis
    using dispatch_download_prefix [of s "strip (url_entry s)" "strip (output_entry s)" env]
    by (simp add: start_download_worker_def Let_def)
next
  case False
  with assms have no: "is_dir env (strip (output_entry s)) = Inr False"
    and made: "mkdir env (strip (output_entry s)) = None" by blast+
  show ?thesis
    using assms(1,2,3) no made
      dispatch_download_prefix
        [of "log_message (''Created output directory: '' @ strip (output_entry s)) ''info''
               (s\<lparr>effects := effects s @ [Mkdir (strip (output_entry s)) True True]\<rparr>)"
            "strip (url_entry s)" "strip (output_entry s)" env]
    by (simp add: start_download_worker_def Let_def log_message_def)
qed

text \<open>
  A request that passes the checks calls \<open>download_video\<close> with the stripped URL and
  path and the current selections, after \<open>mkdir\<close> when the directory was missing.
\<close>

lemma start_download_worker_dispatches:
  assumes "strip (url_entry s) \<noteq> []" and "strip (output_entry s) \<noteq> []"
    and "is_valid_youtube_url (QUrl env) (strip (url_entry s))"
    and "is_dir env (strip (output_entry s)) = Inr True \<or>
         is_dir env (strip (output_entry s)) = Inr False \<and>
         mkdir env (strip (output_entry s)) = None"
  shows "\<exists>rest. effects (fst (start_download_worker env s)) =
     effects s @
     (if is_dir env (strip (output_entry s)) = Inr True then []
      else [Mkdir (strip (output_entry s)) True True]) @
     [Call_download_video (strip (url_entry s)) (strip (output_entry s)) (format_dropdown s)
        (quality_dropdown s) (playlist_check s) (custom_filename_check s)
        (filename_template_entry s) (embed_metadata_check s) (current_video_info s)] @ rest"
  using start_download_worker_prefix [OF assms]
  unfolding prefix_def by simp

lemma strip_unchanged:
  assumes "s \<noteq> []" and "\<not> isspace (hd s)" and "\<not> isspace (last s)"
  shows "strip s = s"
proof -
  have "dropWhile isspace s = s"
    using assms(2) by (simp add: dropWhile_eq_self_iff)
  moreover have "dropWhile isspace (rev s) = rev s"
    using assms(1,3) by (simp add: dropWhile_eq_self_iff hd_rev)
  ultimately show ?thesis by (simp add: strip_def)
qed

lemma strip_sample_url:
  "strip ''https://m.youtube.com/watch?v=x'' = ''https://m.youtube.com/watch?v=x''"
  by (simp add: strip_def isspace_def)

lemma strip_sample_paths:
  "strip ''/home/user/Videos'' = ''/home/user/Videos''"
  "strip ''/home/user/New'' = ''/home/user/New''"
  "strip ''/root/New'' = ''/root/New''"
  by (simp_all add: strip_def isspace_def)

lemma sample_url_valid_env:
  "is_valid_youtube_url (QUrl sample_env) ''https://m.youtube.com/watch?v=x''"
  by (simp add: sample_env_def sample_url_valid)

text \<open>
  When the probe of the directory answers and \<open>mkdir\<close> fails with \<open>OSError\<close> or
  succeeds, the handler does what the specification asks for: after \<open>mkdir\<close> it shows the notice,
  logs the error and returns with the widgets as they were, or it goes on to call
  \<open>download_video\<close>.
\<close>

lemma missing_directory_handled:
  assumes "strip (url_entry s) \<noteq> []" and "strip (output_entry s) \<noteq> []"
    and "is_valid_youtube_url (QUrl env) (strip (url_entry s))"
    and "is_dir env (strip (output_entry s)) = Inr False"
  shows
  "(\<forall>e. mkdir env (strip (output_entry s)) = Some (OSError e) \<longrightarrow>
      start_download_worker env s =
        (log_message (''Error creating directory: '' @ e) ''error''
           (s\<lparr>effects := effects s @
                [Mkdir (strip (output_entry s)) True True,
                 Critical ''Error'' (''Could not create output directory: '' @ e)]\<rparr>),
         None) \<and>
      ui_enabled (fst (start_download_worker env s)) = ui_enabled s) \<and>
   (mkdir env (strip (output_entry s)) = None \<longrightarrow>
      (\<exists>rest. effects (fst (start_download_worker env s)) =
         effects s @
         [Mkdir (strip (output_entry s)) True True,
          Call_download_video (strip (url_entry s)) (strip (output_entry s)) (format_dropdown s)
            (quality_dropdown s) (playlist_check s) (custom_filename_check s)
            (filename_template_entry s) (embed_metadata_check s) (current_video_info s)] @ rest))"
proof -
  have failed: "start_download_worker env s =
        (log_message (''Error creating directory: '' @ e) ''error''
           (s\<lparr>effects := effects s @
                [Mkdir (strip (output_entry s)) True True,
                 Critical ''Error'' (''Could not create output directory: '' @ e)]\<rparr>),
         None) \<and>
      ui_enabled (fst (start_download_worker env s)) = ui_enabled s"
    if "mkdir env (strip (output_entry s)) = Some (OSError e)" for e
    using start_download_worker_mkdir_failed [OF assms that]
    by (simp add: log_message_def)
  have made: "\<exists>rest. effects (fst (start_download_worker env s)) =
         effects s @
         [Mkdir (strip (output_entry s)) True True,
          Call_download_video (strip (url_entry s)) (strip (output_entry s)) (format_dropdown s)
            (quality_dropdown s) (playlist_check s) (custom_filename_check s)
            (filename_template_entry s) (embed_metadata_check s) (current_video_info s)] @ rest"
    if "mkdir env (strip (output_entry s)) = None"
    using start_download_worker_dispatches [OF assms(1,2,3), of ] that assms(4)
    by simp
  show ?thesis using failed made by blast
qed

text \<open>
  Claim C8 is right about what the handler is meant to do, and the handler misses it on
  two paths. The probe \<open>is_dir\<close> (line 809) stands outside the \<open>try\<close>: for a missing
  directory whose name is too long it raises \<open>OSError\<close>, which leaves the handler with
  no notice shown and no \<open>mkdir\<close> asked for. And \<open>except OSError\<close> (line 813) misses
  the \<open>ValueError\<close> that \<open>mkdir\<close> raises for a path with a null character: the creation
  fails and the exception leaves the handler with no notice shown.
\<close>

theorem directory_failure_escapes_handler:
  "start_download_worker sample_env
       (sample_app\<lparr>output_entry := ''/tmp/'' @ replicate 300 CHR ''a''\<rparr>) =
     (sample_app\<lparr>output_entry := ''/tmp/'' @ replicate 300 CHR ''a''\<rparr>,
      Some (OSError ''[Errno 36] File name too long'')) \<and>
   start_download_worker sample_env
       (sample_app\<lparr>output_entry := ''/tmp/a'' @ [CHR 0x00] @ ''b''\<rparr>) =
     (sample_app\<lparr>output_entry := ''/tmp/a'' @ [CHR 0x00] @ ''b'',
        effects := [Mkdir (''/tmp/a'' @ [CHR 0x00] @ ''b'') True True]\<rparr>,
      Some (ValueError ''embedded null byte''))"
proof -
  have long: "strip (''/tmp/'' @ replicate 300 CHR ''a'') = ''/tmp/'' @ replicate 300 CHR ''a''"
    by (rule strip_unchanged) (simp_all add: isspace_def)
  have null: "strip (''/tmp/a'' @ [CHR 0x00] @ ''b'') = ''/tmp/a'' @ [CHR 0x00] @ ''b''"
    by (rule strip_unchanged) (simp_all add: isspace_def)
  have probe: "is_dir sample_env (''/tmp/'' @ replicate 300 CHR ''a'') =
      Inl (OSError ''[Errno 36] File name too long'')"
    by (simp add: sample_env_def)
  have nodir: "is_dir sample_env (''/tmp/a'' @ [CHR 0x00] @ ''b'') = Inr False"
    by (simp add: sample_env_def)
  have raised: "mkdir sample_env (''/tmp/a'' @ [CHR 0x00] @ ''b'') =
      Some (ValueError ''embedded null byte'')"
    by (simp add: sample_env_def)
  have first: "start_download_worker sample_env
       (sample_app\<lparr>output_entry := ''/tmp/'' @ replicate 300 CHR ''a''\<rparr>) =
     (sample_app\<lparr>output_entry := ''/tmp/'' @ replicate 300 CHR ''a''\<rparr>,
      Some (OSError ''[Errno 36] File name too long''))"
    using sample_url_valid_env probe
    by (intro start_download_worker_is_dir_raises)
      (simp_all add: sample_app_def strip_sample_url long [unfolded append_Cons append_Nil])
  have "start_download_worker sample_env
       (sample_app\<lparr>output_entry := ''/tmp/a'' @ [CHR 0x00] @ ''b''\<rparr>) =
     (sample_app\<lparr>output_entry := ''/tmp/a'' @ [CHR 0x00] @ ''b''\<rparr>
        \<lparr>effects := effects (sample_app\<lparr>output_entry := ''/tmp/a'' @ [CHR 0x00] @ ''b''\<rparr>) @
           [Mkdir (strip (output_entry (sample_app\<lparr>output_entry := ''/tmp/a'' @ [CHR 0x00] @ ''b''\<rparr>)))
              True True]\<rparr>,
      Some (ValueError ''embedded null byte''))"
    using sample_url_valid_env nodir raised
    by (intro start_download_worker_mkdir_raises)
      (simp_all add: sample_app_def strip_sample_url null [unfolded append_Cons append_Nil])
  then have second: "start_download_worker sample_env
       (sample_app\<lparr>output_entry := ''/tmp/a'' @ [CHR 0x00] @ ''b''\<rparr>) =
     (sample_app\<lparr>output_entry := ''/tmp/a'' @ [CHR 0x00] @ ''b'',
        effects := [Mkdir (''/tmp/a'' @ [CHR 0x00] @ ''b'') True True]\<rparr>,
      Some (ValueError ''embedded null byte''))"
    by (simp add: null [unfolded append_Cons append_Nil]) (simp add: sample_app_def)
  from first second show ?thesis by blast
qed




section \<open>The end of a download\<close>

lemma progress_hook_signals:
  assumes "progress_hook env d = Inr sigs"
  shows "Operation_finished \<notin> set sigs \<and> (\<forall>i. Info_fetched i \<notin> set sigs)"
  using assms
  by (auto simp: progress_hook_def Let_def split: if_splits option.splits sum.splits)

lemma run_hooks_signals:
  "Operation_finished \<notin> set (fst (run_hooks env ds)) \<and>
   (\<forall>i. Info_fetched i \<notin> set (fst (run_hooks env ds)))"
proof (induction ds)
  case Nil
  show ?case by simp
next
  case (Cons d ds)
  show ?case
  proof (cases "progress_hook env d")
    case (Inl e)
    then show ?thesis by simp
  next
    case (Inr sigs)
    with Cons progress_hook_signals [OF Inr] show ?thesis
      by (auto split: prod.splits)
  qed
qed

lemma download_opts_signals:
  "Operation_finished \<notin> set (snd (download_opts env out ff q pl cf ft em vi)) \<and>
   (\<forall>i. Info_fetched i \<notin> set (snd (download_opts env out ff q pl cf ft em vi)))"
  by (auto simp: download_opts_snd select_format_def build_postprocessors_def Let_def
      split: option.splits if_splits)

text \<open>The signals of a download: what comes before the last one holds neither
  \<open>operation_finished\<close> nor \<open>info_fetched\<close>.\<close>

lemma download_video_signals:
  "\<exists>pre. fst (download_video env url out ff q pl cf ft em vi) = pre @ [Operation_finished] \<and>
     Operation_finished \<notin> set pre \<and> (\<forall>i. Info_fetched i \<notin> set pre)"
proof -
  obtain opts sigs0 where o: "download_opts env out ff q pl cf ft em vi = (opts, sigs0)"
    by (cases "download_opts env out ff q pl cf ft em vi")
  obtain calls result where c: "ydl_download env opts url = (calls, result)"
    by (cases "ydl_download env opts url")
  obtain hs he where h: "run_hooks env calls = (hs, he)"
    by (cases "run_hooks env calls")
  have s0: "Operation_finished \<notin> set sigs0 \<and> (\<forall>i. Info_fetched i \<notin> set sigs0)"
    using download_opts_signals [of env out ff q pl cf ft em vi] o by simp
  have hs: "Operation_finished \<notin> set hs \<and> (\<forall>i. Info_fetched i \<notin> set hs)"
    using run_hooks_signals [of env calls] h by simp
  define started where "started = sigs0 @
      [Log_message (''Starting download of '' @ str_upper env ff @ ''...'') ''info''] @ hs"
  define raised where "raised = (case he of Some e \<Rightarrow> Some e | None \<Rightarrow> result)"
  define mid where "mid =
     (case raised of
        None \<Rightarrow> [Download_complete]
      | Some e \<Rightarrow>
          (case e of
             DownloadError m \<Rightarrow>
               [Download_error (''Download error: '' @ m @ [CHR 0x0A] @
                  ''Possible issues: Invalid URL, geo-restriction, or missing FFmpeg/dependencies.'')]
           | BaseException m \<Rightarrow> []
           | _ \<Rightarrow> [Download_error (''An unexpected error occurred: '' @ str_of_exn e)]))"
  have eq: "fst (download_video env url out ff q pl cf ft em vi) =
      (started @ mid) @ [Operation_finished]"
    by (simp add: download_video_def o c h Let_def started_def mid_def raised_def
        split: option.splits exn.splits)
  have mid: "Operation_finished \<notin> set mid \<and> (\<forall>i. Info_fetched i \<notin> set mid)"
    by (simp add: mid_def split: option.splits exn.splits)
  have "Operation_finished \<notin> set (started @ mid) \<and> (\<forall>i. Info_fetched i \<notin> set (started @ mid))"
    using s0 hs mid by (simp add: started_def)
  with eq show ?thesis by blast
qed

lemma deliver_basic:
  assumes "\<forall>i. Info_fetched i \<notin> set gs"
  shows "deliver env gs s = (foldl (\<lambda>t g. basic_slot g t) s gs, None)"
  using assms
proof (induction gs arbitrary: s)
  case Nil
  show ?case by simp
next
  case (Cons g gs)
  have "slot env g s = (basic_slot g s, None)"
    using Cons.prems by (cases g) (auto simp: slot_def)
  with Cons show ?case by simp
qed

lemma ui_enabled_set_ui_state: "ui_enabled (set_ui_state st s) = (st = ''enabled'')"
  by (simp add: set_ui_state_def toggle_quality_dropdown_def toggle_filename_template_entry_def)

lemma deliver_download_signals:
  assumes "\<forall>i. Info_fetched i \<notin> set pre"
  shows "deliver env (pre @ [Operation_finished]) s =
     (set_ui_state ''enabled'' (foldl (\<lambda>t g. basic_slot g t) s pre), None)"
  using assms by (subst deliver_basic) auto

text \<open>
  Claim C6. However the collaborator ends (normally, with \<open>DownloadError\<close>, with another
  exception, also one raised by the progress hook, or with one that no handler catches),
  \<open>download_video\<close> emits \<open>operation_finished\<close> exactly once and as its last signal, after
  every progress, log and error signal of the download. Once the signals are delivered,
  from whatever state, the widgets are enabled again; the same holds for the state in
  which a download request that passed its checks leaves the handler.
\<close>

theorem download_ends_with_one_operation_finished:
  "(\<exists>pre. fst (download_video env url out ff q pl cf ft em vi) = pre @ [Operation_finished] \<and>
      Operation_finished \<notin> set pre) \<and>
   ui_enabled (fst (deliver env (fst (download_video env url out ff q pl cf ft em vi)) s)) \<and>
   snd (deliver env (fst (download_video env url out ff q pl cf ft em vi)) s) = None \<and>
   (strip (url_entry s) \<noteq> [] \<and> strip (output_entry s) \<noteq> [] \<and>
    is_valid_youtube_url (QUrl env) (strip (url_entry s)) \<and>
    (is_dir env (strip (output_entry s)) = Inr True \<or>
     is_dir env (strip (output_entry s)) = Inr False \<and>
     mkdir env (strip (output_entry s)) = None) \<longrightarrow>
      ui_enabled (fst (start_download_worker env s)))"
proof -
  have run: "ui_enabled (fst (run_worker env (download_video env u out ff q pl cf ft em vi) t))"
    for u out ff q pl cf ft em vi t
  proof -
    obtain pre where pre: "fst (download_video env u out ff q pl cf ft em vi) =
        pre @ [Operation_finished]" "\<forall>i. Info_fetched i \<notin> set pre"
      using download_video_signals by blast
    show ?thesis
      unfolding run_worker_def pre(1) deliver_download_signals [OF pre(2)]
      by (simp add: ui_enabled_set_ui_state)
  qed
  obtain pre where pre: "fst (download_video env url out ff q pl cf ft em vi) =
      pre @ [Operation_finished]" "Operation_finished \<notin> set pre" "\<forall>i. Info_fetched i \<notin> set pre"
    using download_video_signals by blast
  have once: "\<exists>pre. fst (download_video env url out ff q pl cf ft em vi) = pre @ [Operation_finished] \<and>
      Operation_finished \<notin> set pre"
    using pre by blast
  have delivered: "ui_enabled (fst (deliver env (fst (download_video env url out ff q pl cf ft em vi)) s)) \<and>
      snd (deliver env (fst (download_video env url out ff q pl cf ft em vi)) s) = None"
    unfolding pre(1) deliver_download_signals [OF pre(3)]
    by (simp add: ui_enabled_set_ui_state)
  have handler: "ui_enabled (fst (start_download_worker env s))"
    if "strip (url_entry s) \<noteq> []" "strip (output_entry s) \<noteq> []"
      "is_valid_youtube_url (QUrl env) (strip (url_entry s))"
      "is_dir env (strip (output_entry s)) = Inr True \<or>
       is_dir env (strip (output_entry s)) = Inr False \<and>
       mkdir env (strip (output_entry s)) = None"
    using that run
    unfolding start_download_worker_def dispatch_download_def Let_def
    by auto
  show ?thesis using once delivered handler by blast
qed

theorem download_ends_with_one_operation_finished_witness:
  "ui_enabled (fst (start_download_worker sample_env sample_app)) \<and>
   ui_enabled (fst (start_download_worker failing_env sample_app)) \<and>
   ui_enabled (fst (deliver failing_env
     (fst (download_video failing_env ''https://m.youtube.com/watch?v=x'' ''/home/user/Videos''
             ''mp4'' ''720p'' False False [] True None)) busy_app))"
proof -
  have valid: "is_valid_youtube_url (QUrl sample_env) ''https://m.youtube.com/watch?v=x''"
    "is_valid_youtube_url (QUrl failing_env) ''https://m.youtube.com/watch?v=x''"
    by (simp_all add: failing_env_def sample_env_def sample_url_valid)
  have dir: "is_dir sample_env ''/home/user/Videos'' = Inr True"
    "is_dir failing_env ''/home/user/Videos'' = Inr True"
    by (simp_all add: failing_env_def sample_env_def)
  have first: "ui_enabled (fst (start_download_worker sample_env sample_app))"
    using download_ends_with_one_operation_finished [of sample_env _ _ _ _ _ _ _ _ _ sample_app]
      valid(1) dir(1)
    by (simp add: sample_app_def strip_sample_url strip_sample_paths)
  have second: "ui_enabled (fst (start_download_worker failing_env sample_app))"
    using download_ends_with_one_operation_finished [of failing_env _ _ _ _ _ _ _ _ _ sample_app]
      valid(2) dir(2)
    by (simp add: sample_app_def strip_sample_url strip_sample_paths)
  have third: "ui_enabled (fst (deliver failing_env
     (fst (download_video failing_env ''https://m.youtube.com/watch?v=x'' ''/home/user/Videos''
             ''mp4'' ''720p'' False False [] True None)) busy_app))"
    using download_ends_with_one_operation_finished
      [of failing_env "''https://m.youtube.com/watch?v=x''" "''/home/user/Videos''"
          "''mp4''" "''720p''" False False "[]" True None busy_app]
    by blast
  from first second third show ?thesis by blast
qed

section \<open>The duration display\<close>

lemma digit_char_digit: "digit_char d \<in> set ''0123456789''"
proof -
  have "nat (d mod 10) < length ''0123456789''" by simp
  then show ?thesis unfolding digit_char_def by (rule nth_mem)
qed

lemma digit_char_not_colon: "digit_char d \<noteq> CHR '':''"
  using digit_char_digit [of d] by auto

lemma decimal_no_colon: "CHR '':'' \<notin> set (decimal n)"
proof (induction n rule: decimal.induct)
  case (1 n)
  show ?case
  proof (cases "n < 10")
    case True
    then show ?thesis
      by (subst decimal.simps) (simp add: digit_char_not_colon [symmetric])
  next
    case False
    with 1 show ?thesis
      by (subst decimal.simps) (simp add: digit_char_not_colon [symmetric])
  qed
qed

lemma decimal_nonempty: "decimal n \<noteq> []"
  by (subst decimal.simps) simp

lemma decimal_eq_zero_iff:
  assumes "0 \<le> n"
  shows "decimal n = ''0'' \<longleftrightarrow> n = 0"
proof
  assume "n = 0"
  then show "decimal n = ''0''"
    by (subst decimal.simps) (simp add: digit_char_def)
next
  assume eq: "decimal n = ''0''"
  show "n = 0"
  proof (cases "n < 10")
    case True
    with eq have "digit_char n = CHR ''0''"
      by (subst (asm) decimal.simps) simp
    then have "''0123456789'' ! nat (n mod 10) = ''0123456789'' ! 0"
      by (simp add: digit_char_def)
    moreover have "(''0123456789'' ! nat (n mod 10) = ''0123456789'' ! 0) = (nat (n mod 10) = 0)"
      by (rule nth_eq_iff_index_eq) simp_all
    ultimately have "nat (n mod 10) = 0" by blast
    with True assms show ?thesis by simp
  next
    case False
    with eq have "decimal (n div 10) @ [digit_char (n mod 10)] = ''0''"
      by (subst (asm) decimal.simps) simp
    then have "decimal (n div 10) = []" by (simp add: append_eq_Cons_conv)
    with decimal_nonempty show ?thesis by blast
  qed
qed

lemma two_digits_no_colon: "CHR '':'' \<notin> set (two_digits n)"
  by (simp add: two_digits_def decimal_no_colon)

lemma split_no_sep:
  "sep \<notin> set a \<Longrightarrow> split a sep = [a]"
  by (induction a) auto

lemma split_at_sep:
  "sep \<notin> set a \<Longrightarrow> split (a @ sep # r) sep = a # split r sep"
  by (induction a) auto

lemma split_hms:
  "split (hms n) CHR '':'' =
     [decimal (n div 3600), two_digits (n div 60 mod 60), two_digits (n mod 60)]"
proof -
  have "hms n = decimal (n div 3600) @ CHR '':'' #
      (two_digits (n div 60 mod 60) @ CHR '':'' # two_digits (n mod 60))"
    by (simp add: hms_def)
  then show ?thesis
    by (simp only: split_at_sep [OF decimal_no_colon] split_at_sep [OF two_digits_no_colon]
        split_no_sep [OF two_digits_no_colon])
qed

lemma startswith_hms:
  "startswith (hms n) ''0:'' \<longleftrightarrow> decimal (n div 3600) = ''0''"
proof (cases "decimal (n div 3600)")
  case Nil
  with decimal_nonempty show ?thesis by blast
next
  case (Cons c cs)
  have "CHR '':'' \<notin> set cs"
    using decimal_no_colon [of "n div 3600"] Cons by simp
  then have "prefix '':'' (cs @ '':'' @ r) \<longleftrightarrow> cs = []" for r
    by (cases cs) auto
  with Cons show ?thesis
    by (auto simp: startswith_def hms_def)
qed

lemma timedelta_str_day:
  assumes "0 \<le> n" and "n < 86400"
  shows "timedelta_str n = Inr (hms n)"
proof -
  have days: "n div 86400 = 0" and secs: "n mod 86400 = n"
    using assms by simp_all
  have hh: "n div 60 div 60 = n div 3600"
    by (simp add: zdiv_zmult2_eq)
  show ?thesis
    by (simp add: timedelta_str_def Let_def days secs hh hms_def)
qed

lemma duration_text_day:
  assumes "0 \<le> n" and "n < 86400"
  shows "duration_text (Some n) = Inr (spec_duration_display n)"
proof (cases "decimal (n div 3600) = ''0''")
  case True
  then have "hms n = ''0:'' @ two_digits (n div 60 mod 60) @ '':'' @ two_digits (n mod 60)"
    by (simp add: hms_def)
  then have "drop 2 (hms n) = two_digits (n div 60 mod 60) @ '':'' @ two_digits (n mod 60)"
    by simp
  with True show ?thesis
    by (simp add: duration_text_def timedelta_str_day [OF assms] Let_def split_hms
        spec_duration_display_def startswith_hms)
next
  case False
  then show ?thesis
    by (simp add: duration_text_def timedelta_str_day [OF assms] Let_def split_hms
        spec_duration_display_def startswith_hms)
qed

text \<open>The slots of the signals of \<open>download_thumbnail\<close> leave the duration label alone.\<close>

lemma download_thumbnail_signals:
  "\<forall>g \<in> set (fst (download_thumbnail env u)).
     (\<exists>m t. g = Log_message m t) \<or> (\<exists>p. g = Thumbnail_loaded p) \<or> g = Thumbnail_error"
  by (auto simp: download_thumbnail_def Let_def split: sum.splits)

lemma duration_label_foldl_basic_slot:
  assumes "\<forall>g \<in> set gs.
     (\<exists>m t. g = Log_message m t) \<or> (\<exists>p. g = Thumbnail_loaded p) \<or> g = Thumbnail_error"
  shows "duration_label (foldl (\<lambda>t g. basic_slot g t) s gs) = duration_label s"
  using assms
proof (induction gs arbitrary: s)
  case Nil
  show ?case by simp
next
  case (Cons g gs)
  have "duration_label (basic_slot g s) = duration_label s"
    using Cons.prems
    by (auto simp: log_message_def display_thumbnail_def on_thumbnail_error_def)
  with Cons show ?case by simp
qed

lemma duration_label_update_available_qualities [simp]:
  "duration_label (update_available_qualities i s) = duration_label s"
  by (simp add: update_available_qualities_def Let_def log_message_def)

lemma duration_label_thumbnail_slots [simp]:
  "duration_label (foldl (\<lambda>t g. basic_slot g t) s (fst (download_thumbnail env u))) =
     duration_label s"
  by (rule duration_label_foldl_basic_slot [OF download_thumbnail_signals])

lemma duration_label_log_message [simp]:
  "duration_label (log_message m t s) = duration_label s"
  by (simp add: log_message_def)

lemma duration_label_display_video_info:
  assumes "duration_text (duration info) = Inr d"
  shows "duration_label (fst (display_video_info env info s)) = d"
proof (cases "case thumbnail info of Some u \<Rightarrow> u \<noteq> [] | None \<Rightarrow> False")
  case True
  with assms show ?thesis
    unfolding display_video_info_def Let_def
    by (simp add: case_prod_beta split: option.split)
next
  case False
  with assms show ?thesis
    unfolding display_video_info_def Let_def
    by simp
qed

lemma spec_duration_display_examples:
  "spec_duration_display 83 = ''01:23''"
  "spec_duration_display 5025 = ''1:23:45''"
  by code_simp+

text \<open>
  Claim C10. When the metadata has no duration, the duration label shows \<open>N/A\<close>. When the
  duration is an integer number of seconds from 0 up to one day (86400 excluded), the
  label shows its rendering \<open>H:MM:SS\<close> with one leading \<open>0:\<close> stripped: \<open>01:23\<close> for 83
  seconds, \<open>1:23:45\<close> for 5025 seconds.
\<close>

theorem duration_label_display:
  "(duration info = None \<longrightarrow>
      duration_label (fst (display_video_info env info s)) = ''N/A'') \<and>
   (\<forall>n. duration info = Some n \<and> 0 \<le> n \<and> n < 86400 \<longrightarrow>
      duration_label (fst (display_video_info env info s)) = spec_duration_display n) \<and>
   spec_duration_display 83 = ''01:23'' \<and>
   spec_duration_display 5025 = ''1:23:45''"
proof -
  have absent: "duration_label (fst (display_video_info env info s)) = ''N/A''"
    if "duration info = None"
    using that by (intro duration_label_display_video_info) (simp add: duration_text_def)
  have present: "duration_label (fst (display_video_info env info s)) = spec_duration_display n"
    if "duration info = Some n" "0 \<le> n" "n < 86400" for n
    using that by (intro duration_label_display_video_info) (simp add: duration_text_day)
  show ?thesis
    using absent present spec_duration_display_examples by blast
qed

theorem duration_label_display_witness:
  "duration_label (fst (display_video_info sample_env sample_info sample_app)) = ''01:23'' \<and>
   duration_label (fst (display_video_info sample_env (sample_info\<lparr>duration := Some 5025\<rparr>) sample_app))
     = ''1:23:45'' \<and>
   duration_label (fst (display_video_info sample_env (sample_info\<lparr>duration := None\<rparr>) loaded_app))
     = ''N/A''"
proof -
  have first: "duration_label (fst (display_video_info sample_env sample_info sample_app)) = ''01:23''"
    using duration_label_display [of sample_info sample_env sample_app]
    by (simp add: sample_info_def)
  have second: "duration_label (fst (display_video_info sample_env
      (sample_info\<lparr>duration := Some 5025\<rparr>) sample_app)) = ''1:23:45''"
    using duration_label_display [of "sample_info\<lparr>duration := Some 5025\<rparr>" sample_env sample_app]
    by simp
  have third: "duration_label (fst (display_video_info sample_env
      (sample_info\<lparr>duration := None\<rparr>) loaded_app)) = ''N/A''"
    using duration_label_display [of "sample_info\<lparr>duration := None\<rparr>" sample_env loaded_app]
    by simp
  from first second third show ?thesis by blast
qed

section \<open>Rounding to a float\<close>

lemma round_half_even_error: "\<bar>of_int (round_half_even x) - x\<bar> \<le> 1 / 2"
proof -
  have "of_int \<lfloor>x\<rfloor> \<le> x" "x < of_int \<lfloor>x\<rfloor> + 1" by linarith+
  then show ?thesis
    unfolding round_half_even_def Let_def by auto
qed

lemma round_half_even_le:
  assumes "x \<le> of_int k"
  shows "round_half_even x \<le> k"
proof -
  have fl: "\<lfloor>x\<rfloor> \<le> k" using assms by (simp add: floor_le_iff) 
  show ?thesis
  proof (cases "\<lfloor>x\<rfloor> = k")
    case True
    then have "x - of_int \<lfloor>x\<rfloor> \<le> 0" using assms by simp
    then show ?thesis
      unfolding round_half_even_def Let_def using True by auto
  next
    case False
    with fl have "\<lfloor>x\<rfloor> + 1 \<le> k" by simp
    then show ?thesis
      unfolding round_half_even_def Let_def by auto
  qed
qed

lemma round_half_even_nonneg:
  assumes "0 \<le> x"
  shows "0 \<le> round_half_even x"
proof -
  have "0 \<le> \<lfloor>x\<rfloor>" using assms by simp
  then show ?thesis
    unfolding round_half_even_def Let_def by auto
qed

lemma binade_lower:
  assumes "0 < x"
  shows "2 powi (binade x) \<le> x"
proof -
  obtain p q where pq: "quotient_of x = (p, q)" by (cases "quotient_of x")
  have q: "0 < q" using pq by (rule quotient_of_denom_pos)
  have x: "x = of_int p / of_int q" using pq by (rule quotient_of_div)
  have p: "0 < p" using assms q x by (simp add: zero_less_divide_iff)
  define e where "e = bitlen p - bitlen q"
  show ?thesis
  proof (cases "2 powi e \<le> x")
    case True
    then show ?thesis by (simp add: binade_def pq e_def Let_def)
  next
    case False
    have bp: "1 \<le> bitlen p" and bq: "1 \<le> bitlen q"
      using p q by (simp_all add: bitlen_alt_def)
    have "2 ^ nat (bitlen p - 1) \<le> p" using bitlen_bounds [OF p] by simp
    then have lo: "(2::rat) ^ nat (bitlen p - 1) \<le> of_int p"
      by (metis of_int_le_iff of_int_numeral of_int_power)
    have "q < 2 ^ nat (bitlen q)" using bitlen_bounds [OF q] by simp
    then have hi: "of_int q \<le> (2::rat) ^ nat (bitlen q)"
      by (metis less_imp_le of_int_le_iff of_int_numeral of_int_power)
    have "(2::rat) powi (e - 1) = 2 powi (bitlen p - 1) / 2 powi (bitlen q)"
      unfolding e_def
      by (metis diff_right_commute power_int_diff zero_neq_numeral)
    also have "\<dots> = 2 ^ nat (bitlen p - 1) / 2 ^ nat (bitlen q)"
      using bp bq by (simp add: power_int_def)
    also have "\<dots> \<le> of_int p / of_int q"
      using lo hi q p by (intro frac_le) simp_all
    finally have "2 powi (e - 1) \<le> x" by (simp add: x)
    with False show ?thesis by (simp add: binade_def pq e_def Let_def)
  qed
qed


lemma binade_less:
  assumes "0 < x" and "x < 2 ^ k"
  shows "binade x < int k"
proof (rule ccontr)
  assume "\<not> binade x < int k"
  then have "int k \<le> binade x" by simp
  then have "(2::rat) powi (int k) \<le> 2 powi (binade x)"
    by (intro power_int_increasing) simp_all
  with binade_lower [OF assms(1)] assms(2) show False by simp
qed

lemma double_of_rat_bounded:
  fixes k :: nat
  assumes "0 < x" and "x \<le> of_int c" and "c < 2 ^ k" and "k \<le> 53"
  shows "\<exists>r. double_of_rat x = Some r \<and> 0 \<le> r \<and> r \<le> of_int c \<and>
           \<bar>r - x\<bar> \<le> 1 / 2 ^ (54 - k)"
proof -
  define e where "e = max (binade x) (- 1022)"
  define u :: rat where "u = 2 powi (e - 52)"
  define m where "m = round_half_even (x / u)"
  define r where "r = of_int m * u"
  have "(of_int c :: rat) < of_int (2 ^ k)" using assms(3) by (simp only: of_int_less_iff)
  then have c: "(of_int c :: rat) < 2 ^ k" by simp
  from assms(2) c have xk: "x < 2 ^ k" by (rule le_less_trans)
  have e: "e \<le> int k - 1"
    using binade_less [OF assms(1) xk] by (simp add: e_def)
  have u0: "0 < u" by (simp add: u_def)
  have "u \<le> 2 powi (int k - 53)"
    unfolding u_def using e by (intro power_int_increasing) simp_all
  moreover have "(2::rat) powi (int k - 53) = 1 / 2 ^ (53 - k)"
  proof -
    have "int k - 53 = - int (53 - k)" using assms(4) by simp
    then have "(2::rat) powi (int k - 53) = inverse (2 powi int (53 - k))"
      by (simp only: power_int_minus)
    then show ?thesis by (simp add: divide_inverse)
  qed
  moreover have "(2::rat) ^ (54 - k) = 2 * 2 ^ (53 - k)"
  proof -
    have "54 - k = Suc (53 - k)" using assms(4) by simp
    then show ?thesis by simp
  qed
  ultimately have u_half: "u / 2 \<le> 1 / 2 ^ (54 - k)" by simp
  have m0: "0 \<le> m"
    unfolding m_def using assms(1) u0 by (intro round_half_even_nonneg) simp
  then have r0: "0 \<le> r" using u0 by (simp add: r_def)
  have e52: "0 \<le> 52 - e" using e assms(4) by simp
  have inv_u: "1 / u = 2 ^ nat (52 - e)"
  proof -
    have "(2::rat) powi (- (e - 52)) = inverse (2 powi (e - 52))"
      by (rule power_int_minus)
    then have "1 / u = 2 powi (52 - e)"
      by (simp add: u_def divide_inverse)
    also have "\<dots> = 2 ^ nat (52 - e)" using e52 by (simp add: power_int_def)
    finally show ?thesis .
  qed
  have "x / u \<le> of_int c / u" using assms(2) u0 by (simp add: divide_right_mono)
  also have "of_int c / u = of_int c * (1 / u)" by simp
  also have "\<dots> = of_int (c * 2 ^ nat (52 - e))" by (simp add: inv_u)
  finally have "m \<le> c * 2 ^ nat (52 - e)"
    unfolding m_def by (rule round_half_even_le)
  then have "(of_int m :: rat) \<le> of_int (c * 2 ^ nat (52 - e))" by (simp only: of_int_le_iff)
  then have "of_int m \<le> of_int c * (1 / u)" by (simp add: inv_u)
  then have rc: "r \<le> of_int c" using u0 by (simp add: r_def field_simps)
  have "\<bar>r - x\<bar> = \<bar>of_int m - x / u\<bar> * u"
  proof -
    have "r - x = (of_int m - x / u) * u" using u0 by (simp add: r_def field_simps)
    then show ?thesis using u0 by (simp add: abs_mult)
  qed
  also have "\<dots> \<le> (1 / 2) * u"
    using round_half_even_error [of "x / u"] u0
    unfolding m_def by (intro mult_right_mono) simp_all
  also have "\<dots> \<le> 1 / 2 ^ (54 - k)" using u_half by simp
  finally have err: "\<bar>r - x\<bar> \<le> 1 / 2 ^ (54 - k)" .
  have "(2::rat) ^ k \<le> 2 ^ 1024" using assms(4) by (intro power_increasing) simp_all
  with rc c have "r < 2 ^ 1024" by linarith
  then have fin: "\<not> 2 powi 1024 \<le> r" by simp
  have "double_of_rat x = Some r"
    using assms(1) fin
    by (simp add: double_of_rat_def Let_def r_def m_def u_def e_def)
  with r0 rc err show ?thesis by blast
qed

lemma double_of_rat_zero: "double_of_rat 0 = Some 0"
  by (simp add: double_of_rat_def)

lemma floor_close:
  fixes a b :: rat
  assumes "\<bar>a - b\<bar> < 1"
  shows "\<bar>\<lfloor>a\<rfloor> - \<lfloor>b\<rfloor>\<bar> \<le> 1"
proof -
  have "of_int \<lfloor>a\<rfloor> \<le> a" "a < of_int \<lfloor>a\<rfloor> + 1" "of_int \<lfloor>b\<rfloor> \<le> b" "b < of_int \<lfloor>b\<rfloor> + 1"
    by linarith+
  with assms have "(of_int \<lfloor>a\<rfloor> :: rat) < of_int \<lfloor>b\<rfloor> + 2" "(of_int \<lfloor>b\<rfloor> :: rat) < of_int \<lfloor>a\<rfloor> + 2"
    by linarith+
  then have "\<lfloor>a\<rfloor> < \<lfloor>b\<rfloor> + 2" "\<lfloor>b\<rfloor> < \<lfloor>a\<rfloor> + 2"
    by (metis of_int_add of_int_less_iff of_int_numeral)+
  then show ?thesis by linarith
qed

lemma percent_of_fraction:
  assumes "0 \<le> d" and "d \<le> t" and "0 < t"
  shows "\<exists>p. percent_of d t = Inr p \<and> 0 \<le> p \<and> p \<le> 100 \<and> \<bar>p - (100 * d) div t\<bar> \<le> 1"
proof (cases "d = 0")
  case True
  then show ?thesis
    using assms(3)
    by (simp add: percent_of_def int_truediv_def double_of_rat_zero float_mul_int_def
        int_of_float_def)
next
  case False
  define x :: rat where "x = of_int d / of_int t"
  have x0: "0 < x" using False assms by (simp add: x_def)
  have x1: "x \<le> of_int 1" using assms by (simp add: x_def)
  have fl: "\<lfloor>100 * x\<rfloor> = (100 * d) div t"
  proof -
    have "100 * x = of_int (100 * d) / of_int t" by (simp add: x_def)
    then show ?thesis by (simp only: floor_divide_of_int_eq)
  qed
  obtain q where q: "double_of_rat x = Some q" "0 \<le> q" "q \<le> of_int 1"
      "\<bar>q - x\<bar> \<le> 1 / 2 ^ (54 - 1)"
    using double_of_rat_bounded [OF x0 x1, of 1] by auto
  have qx: "\<bar>q - x\<bar> \<le> 1 / 2 ^ 53" using q(4) by simp
  have div: "int_truediv d t = Inr (Finite q)"
    using assms(3) q(1) by (simp add: int_truediv_def x_def)
  show ?thesis
  proof (cases "q = 0")
    case True
    have "\<bar>0 - 100 * x\<bar> < 1" using qx True by simp
    then have "\<bar>\<lfloor>0::rat\<rfloor> - \<lfloor>100 * x\<rfloor>\<bar> \<le> 1" by (rule floor_close)
    then have "\<bar>0 - (100 * d) div t\<bar> \<le> 1" by (simp add: fl)
    with True div show ?thesis
      by (simp add: percent_of_def double_of_rat_zero float_mul_int_def int_of_float_def)
  next
    case False
    define y where "y = q * 100"
    have y0: "0 < y" using False q(2) by (simp add: y_def)
    have y100: "y \<le> of_int 100" using q(3) by (simp add: y_def)
    obtain f where f: "double_of_rat y = Some f" "0 \<le> f" "f \<le> of_int 100"
        "\<bar>f - y\<bar> \<le> 1 / 2 ^ (54 - 7)"
      using double_of_rat_bounded [OF y0 y100, of 7] by auto
    have fy: "\<bar>f - y\<bar> \<le> 1 / 2 ^ 47" using f(4) by simp
    have "f - 100 * x = (f - y) + 100 * (q - x)" by (simp add: y_def)
    then have "\<bar>f - 100 * x\<bar> \<le> \<bar>f - y\<bar> + \<bar>100 * (q - x)\<bar>"
      by (simp only: abs_triangle_ineq)
    also have "\<bar>100 * (q - x)\<bar> = 100 * \<bar>q - x\<bar>"
      by (simp only: abs_mult abs_numeral)
    finally have "\<bar>f - 100 * x\<bar> \<le> \<bar>f - y\<bar> + 100 * \<bar>q - x\<bar>" .
    also have "\<dots> \<le> 1 / 2 ^ 47 + 100 * (1 / 2 ^ 53)"
      using fy qx by (intro add_mono mult_left_mono) simp_all
    also have "\<dots> < 1" by simp
    finally have "\<bar>\<lfloor>f\<rfloor> - \<lfloor>100 * x\<rfloor>\<bar> \<le> 1" by (rule floor_close)
    then have close: "\<bar>\<lfloor>f\<rfloor> - (100 * d) div t\<bar> \<le> 1" by (simp add: fl)
    have lo: "0 \<le> \<lfloor>f\<rfloor>" using f(2) by simp
    have hi: "\<lfloor>f\<rfloor> \<le> 100" using f(3) by (simp add: floor_le_iff) 
    have "percent_of d t = Inr \<lfloor>f\<rfloor>"
      using div f(1) f(2)
      by (simp add: percent_of_def float_mul_int_def int_of_float_def y_def)
    with lo hi close show ?thesis by blast
  qed
qed


lemma binade_upper:
  assumes "0 < x"
  shows "x < 2 powi (binade x + 1)"
proof -
  obtain p q where pq: "quotient_of x = (p, q)" by (cases "quotient_of x")
  have q: "0 < q" using pq by (rule quotient_of_denom_pos)
  have x: "x = of_int p / of_int q" using pq by (rule quotient_of_div)
  have p: "0 < p" using assms q x by (simp add: zero_less_divide_iff)
  define e where "e = bitlen p - bitlen q"
  show ?thesis
  proof (cases "2 powi e \<le> x")
    case False
    then show ?thesis by (simp add: binade_def pq e_def Let_def)
  next
    case True
    have bp: "1 \<le> bitlen p" and bq: "1 \<le> bitlen q"
      using p q by (simp_all add: bitlen_alt_def)
    have "p < 2 ^ nat (bitlen p)" using bitlen_bounds [OF p] by simp
    then have hi: "of_int p < (2::rat) ^ nat (bitlen p)"
      by (metis of_int_less_iff of_int_numeral of_int_power)
    have "2 ^ nat (bitlen q - 1) \<le> q" using bitlen_bounds [OF q] by simp
    then have lo: "(2::rat) ^ nat (bitlen q - 1) \<le> of_int q"
      by (metis of_int_le_iff of_int_numeral of_int_power)
    have "of_int p / of_int q < (2::rat) ^ nat (bitlen p) / 2 ^ nat (bitlen q - 1)"
      using lo hi q p by (intro frac_less) simp_all
    also have "\<dots> = 2 powi (bitlen p) / 2 powi (bitlen q - 1)"
      using bp bq by (simp add: power_int_def)
    also have "\<dots> = 2 powi (bitlen p - (bitlen q - 1))"
      by (simp add: power_int_diff)
    also have "bitlen p - (bitlen q - 1) = e + 1" by (simp add: e_def)
    finally have "x < 2 powi (e + 1)" by (simp add: x)
    with True show ?thesis by (simp add: binade_def pq e_def Let_def)
  qed
qed

lemma binade_unique:
  assumes "2 powi e \<le> x" and "x < 2 powi (e + 1)"
  shows "binade x = e"
proof -
  have "(0::rat) < 2 powi e" by simp
  with assms(1) have x: "0 < x" by linarith
  have a: "binade x < e + 1"
  proof (rule ccontr)
    assume "\<not> binade x < e + 1"
    then have "(2::rat) powi (e + 1) \<le> 2 powi (binade x)"
      by (intro power_int_increasing) simp_all
    with binade_lower [OF x] assms(2) show False by linarith
  qed
  have "e < binade x + 1"
  proof (rule ccontr)
    assume "\<not> e < binade x + 1"
    then have "(2::rat) powi (binade x + 1) \<le> 2 powi e"
      by (intro power_int_increasing) simp_all
    with binade_upper [OF x] assms(1) show False by linarith
  qed
  with a show ?thesis by simp
qed

lemma double_of_rat_eval:
  assumes "2 powi e \<le> x" and "x < 2 powi (e + 1)" and "- 1022 \<le> e" and "e < 1023"
    and "round_half_even (x / 2 powi (e - 52)) = m"
    and "m < 2 ^ 53"
  shows "double_of_rat x = Some (of_int m * 2 powi (e - 52))"
proof -
  have "(0::rat) < 2 powi e" by simp
  with assms(1) have x: "0 < x" by linarith
  have b: "max (binade x) (- 1022) = e"
    using binade_unique [OF assms(1,2)] assms(3) by simp
  have "(of_int m :: rat) < of_int (2 ^ 53)" using assms(6) by (simp only: of_int_less_iff)
  then have "(of_int m :: rat) < 2 powi 53" by simp
  then have "(of_int m :: rat) * 2 powi (e - 52) < 2 powi 53 * 2 powi (e - 52)"
    by (intro mult_strict_right_mono) simp_all
  also have "\<dots> = 2 powi (e + 1)"
    using power_int_add [of "2::rat" 53 "e - 52"] by (simp add: add.commute)
  also have "\<dots> \<le> 2 powi 1024" using assms(4) by (intro power_int_increasing) simp_all
  finally have "\<not> 2 powi 1024 \<le> (of_int m :: rat) * 2 powi (e - 52)" by simp
  then show ?thesis
    using x b assms(5) by (simp add: double_of_rat_def Let_def)
qed

lemma floor_rat_numeral_divide:
  "\<lfloor>(numeral a :: rat) / numeral b\<rfloor> = numeral a div numeral b"
  using floor_divide_of_int_eq [of "numeral a" "numeral b", where ?'a = rat] by simp

lemma percent_of_eval:
  assumes "t \<noteq> 0"
    and "double_of_rat (of_int d / of_int t) = Some q"
    and "double_of_rat (q * 100) = Some f"
    and "0 \<le> f"
  shows "percent_of d t = Inr \<lfloor>f\<rfloor>"
  using assms
  by (simp add: percent_of_def int_truediv_def float_mul_int_def int_of_float_def)

text \<open>The percentage on some inputs, each step of its float arithmetic evaluated.\<close>

lemma percent_50_200: "percent_of 50 200 = Inr 25"
proof -
  have q: "double_of_rat (1 / 4) = Some (of_int 4503599627370496 * 2 powi (- 2 - 52))"
    by (rule double_of_rat_eval)
      (simp_all add: round_half_even_def Let_def floor_rat_numeral_divide)
  have f: "double_of_rat (1 / 4 * 100) = Some (of_int 7036874417766400 * 2 powi (4 - 52))"
    by (rule double_of_rat_eval)
      (simp_all add: round_half_even_def Let_def floor_rat_numeral_divide)
  have "percent_of 50 200 = Inr \<lfloor>25 :: rat\<rfloor>"
    by (rule percent_of_eval [where q = "1 / 4"]) (use q f in simp_all)
  then show ?thesis by simp
qed

lemma percent_29_100: "percent_of 29 100 = Inr 28"
proof -
  have q: "double_of_rat (29 / 100) = Some (of_int 5224175567749775 * 2 powi (- 2 - 52))"
    by (rule double_of_rat_eval)
      (simp_all add: round_half_even_def Let_def floor_rat_numeral_divide)
  have f: "double_of_rat (5224175567749775 / 18014398509481984 * 100) =
      Some (of_int 8162774324609023 * 2 powi (4 - 52))"
    by (rule double_of_rat_eval)
      (simp_all add: round_half_even_def Let_def floor_rat_numeral_divide)
  have "percent_of 29 100 = Inr \<lfloor>8162774324609023 / 281474976710656 :: rat\<rfloor>"
    by (rule percent_of_eval [where q = "5224175567749775 / 18014398509481984"])
      (use q f in simp_all)
  then show ?thesis by (simp add: floor_rat_numeral_divide)
qed

lemma percent_300_200: "percent_of 300 200 = Inr 150"
proof -
  have q: "double_of_rat (3 / 2) = Some (of_int 6755399441055744 * 2 powi (0 - 52))"
    by (rule double_of_rat_eval)
      (simp_all add: round_half_even_def Let_def floor_rat_numeral_divide)
  have f: "double_of_rat (3 / 2 * 100) = Some (of_int 5277655813324800 * 2 powi (7 - 52))"
    by (rule double_of_rat_eval)
      (simp_all add: round_half_even_def Let_def floor_rat_numeral_divide)
  have "percent_of 300 200 = Inr \<lfloor>150 :: rat\<rfloor>"
    by (rule percent_of_eval [where q = "3 / 2"]) (use q f in simp_all)
  then show ?thesis by simp
qed

lemma percent_115_100: "percent_of 115 100 = Inr 114"
proof -
  have q: "double_of_rat (115 / 100) = Some (of_int 5179139571476070 * 2 powi (0 - 52))"
    by (rule double_of_rat_eval)
      (simp_all add: round_half_even_def Let_def floor_rat_numeral_divide)
  have f: "double_of_rat (2589569785738035 / 2251799813685248 * 100) =
      Some (of_int 8092405580431359 * 2 powi (6 - 52))"
    by (rule double_of_rat_eval)
      (simp_all add: round_half_even_def Let_def floor_rat_numeral_divide)
  have "percent_of 115 100 = Inr \<lfloor>8092405580431359 / 70368744177664 :: rat\<rfloor>"
    by (rule percent_of_eval [where q = "2589569785738035 / 2251799813685248"])
      (use q f in simp_all)
  then show ?thesis by (simp add: floor_rat_numeral_divide)
qed

lemmas percent_of_examples = percent_50_200 percent_29_100 percent_300_200 percent_115_100

section \<open>The progress hook\<close>

lemma progress_hook_downloading:
  assumes "status d = ''downloading''"
  shows "progress_hook env d =
     (case known_total d of
        None \<Rightarrow> Inr []
      | Some t \<Rightarrow>
          (case percent_of (case downloaded_bytes d of Some n \<Rightarrow> n | None \<Rightarrow> 0) t of
             Inl e \<Rightarrow> Inl e
           | Inr p \<Rightarrow>
               (case c_int env p of
                  Inl e \<Rightarrow> Inl e
                | Inr received \<Rightarrow> Inr [Progress_update received])))"
  using assms
  by (cases "total_bytes d"; cases "total_bytes_estimate d")
    (auto simp: progress_hook_def known_total_def Let_def)

lemma known_total_nonzero: "known_total d = Some t \<Longrightarrow> t \<noteq> 0"
  by (auto simp: known_total_def split: if_splits)

lemma wrap_c_int_in_range:
  assumes "- 2147483648 \<le> n" and "n < 2147483648"
  shows "wrap_c_int n = Inr n"
  using assms by (simp add: wrap_c_int_def)

text \<open>
  Claim C2, as stated, fails: the value sent is neither clamped nor always the floor.
  For 115 bytes downloaded of a total of 100 the hook sends 114, where the floor of the
  exact percentage is 115 and the claim's clamped value is 100.
\<close>

theorem progress_percent_counterexample:
  "progress_hook sample_env \<lparr>status = ''downloading'', downloaded_bytes = Some 115,
       total_bytes = Some 100, total_bytes_estimate = None\<rparr> = Inr [Progress_update 114] \<and>
   spec_progress_percent 115 100 = 100"
proof -
  have "known_total \<lparr>status = ''downloading'', downloaded_bytes = Some 115,
       total_bytes = Some 100, total_bytes_estimate = None\<rparr> = Some 100"
    by (simp add: known_total_def)
  moreover have "c_int sample_env 114 = Inr 114"
    by (simp add: sample_env_def wrap_c_int_in_range)
  ultimately have "progress_hook sample_env \<lparr>status = ''downloading'', downloaded_bytes = Some 115,
       total_bytes = Some 100, total_bytes_estimate = None\<rparr> = Inr [Progress_update 114]"
    by (simp add: progress_hook_downloading percent_of_examples)
  moreover have "spec_progress_percent 115 100 = 100"
    by (simp add: spec_progress_percent_def)
  ultimately show ?thesis by blast
qed

text \<open>
  Claim C2, amended. For a callback with status \<open>downloading\<close> and int byte counts: when
  no total is known (the exact one and the estimate are each absent or zero) the hook
  emits nothing; when a total is known, the hook emits exactly one progress signal,
  whose value is \<open>int((downloaded / total) * 100)\<close> in Python's float arithmetic,
  without clamping, as the signal's C \<open>int\<close> argument carries it, or it raises when that
  arithmetic leaves the range of floats or the conversion to the C \<open>int\<close> raises; and
  when moreover \<open>0 \<le> downloaded \<le> total\<close> and the conversion keeps the values from 0 to
  100, the signal is emitted, its value lies between 0 and 100 and is at most one away
  from the floor of \<open>100 * downloaded / total\<close>. For the status \<open>finished\<close> the hook
  emits the progress 100, as converted, and then an info message.
\<close>

theorem progress_hook_translation:
  "(status d = ''downloading'' \<and> known_total d = None \<longrightarrow> progress_hook env d = Inr []) \<and>
   (\<forall>t. status d = ''downloading'' \<and> known_total d = Some t \<longrightarrow>
      progress_hook env d =
        (case percent_of (case downloaded_bytes d of Some n \<Rightarrow> n | None \<Rightarrow> 0) t of
           Inl e \<Rightarrow> Inl e
         | Inr p \<Rightarrow>
             (case c_int env p of
                Inl e \<Rightarrow> Inl e
              | Inr received \<Rightarrow> Inr [Progress_update received]))) \<and>
   (\<forall>t. status d = ''downloading'' \<and> known_total d = Some t \<and>
        0 \<le> (case downloaded_bytes d of Some n \<Rightarrow> n | None \<Rightarrow> 0) \<and>
        (case downloaded_bytes d of Some n \<Rightarrow> n | None \<Rightarrow> 0) \<le> t \<and>
        (\<forall>p. 0 \<le> p \<and> p \<le> 100 \<longrightarrow> c_int env p = Inr p) \<longrightarrow>
      (\<exists>p. progress_hook env d = Inr [Progress_update p] \<and> 0 \<le> p \<and> p \<le> 100 \<and>
           \<bar>p - (100 * (case downloaded_bytes d of Some n \<Rightarrow> n | None \<Rightarrow> 0)) div t\<bar> \<le> 1)) \<and>
   (status d = ''finished'' \<longrightarrow>
      progress_hook env d =
        (case c_int env 100 of
           Inl e \<Rightarrow> Inl e
         | Inr received \<Rightarrow>
             Inr [Progress_update received,
                  Log_message ''Download finished. Processing file(s)...'' ''info'']))"
proof -
  define n where "n = (case downloaded_bytes d of Some n \<Rightarrow> n | None \<Rightarrow> 0)"
  have unknown: "progress_hook env d = Inr []"
    if "status d = ''downloading''" "known_total d = None"
    using that by (simp add: progress_hook_downloading)
  have known: "progress_hook env d =
      (case percent_of n t of
         Inl e \<Rightarrow> Inl e
       | Inr p \<Rightarrow>
           (case c_int env p of
              Inl e \<Rightarrow> Inl e
            | Inr received \<Rightarrow> Inr [Progress_update received]))"
    if "status d = ''downloading''" "known_total d = Some t" for t
    using that by (simp add: progress_hook_downloading n_def)
  have within: "\<exists>p. progress_hook env d = Inr [Progress_update p] \<and> 0 \<le> p \<and> p \<le> 100 \<and>
      \<bar>p - (100 * n) div t\<bar> \<le> 1"
    if st: "status d = ''downloading''" and kt: "known_total d = Some t"
      and lo: "0 \<le> n" and hi: "n \<le> t"
      and keeps: "\<forall>p. 0 \<le> p \<and> p \<le> 100 \<longrightarrow> c_int env p = Inr p" for t
  proof -
    have "t \<noteq> 0" using kt by (rule known_total_nonzero)
    with lo hi have "0 < t" by simp
    from percent_of_fraction [OF lo hi this]
    obtain p where p: "percent_of n t = Inr p" "0 \<le> p" "p \<le> 100" "\<bar>p - (100 * n) div t\<bar> \<le> 1"
      by blast
    with keeps have "c_int env p = Inr p" by blast
    with p known [OF st kt] show ?thesis by simp
  qed
  have finished: "progress_hook env d =
      (case c_int env 100 of
         Inl e \<Rightarrow> Inl e
       | Inr received \<Rightarrow>
           Inr [Progress_update received,
                Log_message ''Download finished. Processing file(s)...'' ''info''])"
    if "status d = ''finished''"
    using that by (simp add: progress_hook_def)
  show ?thesis
    using unknown known within finished unfolding n_def by blast
qed

theorem progress_hook_translation_witness:
  "progress_hook sample_env \<lparr>status = ''downloading'', downloaded_bytes = Some 50,
       total_bytes = Some 200, total_bytes_estimate = None\<rparr> = Inr [Progress_update 25] \<and>
   (\<exists>p. progress_hook sample_env \<lparr>status = ''downloading'', downloaded_bytes = Some 29,
       total_bytes = None, total_bytes_estimate = Some 100\<rparr> = Inr [Progress_update p] \<and>
       0 \<le> p \<and> p \<le> 100 \<and> \<bar>p - 29\<bar> \<le> 1) \<and>
   progress_hook sample_env \<lparr>status = ''downloading'', downloaded_bytes = Some 1,
       total_bytes = Some 0, total_bytes_estimate = None\<rparr> = Inr [] \<and>
   progress_hook sample_env \<lparr>status = ''finished'', downloaded_bytes = Some 200,
       total_bytes = Some 200, total_bytes_estimate = None\<rparr> =
     Inr [Progress_update 100, Log_message ''Download finished. Processing file(s)...'' ''info'']"
proof -
  have k1: "known_total \<lparr>status = ''downloading'', downloaded_bytes = Some 50,
       total_bytes = Some 200, total_bytes_estimate = None\<rparr> = Some 200"
    by (simp add: known_total_def)
  have k2: "known_total \<lparr>status = ''downloading'', downloaded_bytes = Some 1,
       total_bytes = Some 0, total_bytes_estimate = None\<rparr> = None"
    by (simp add: known_total_def)
  have k3: "known_total \<lparr>status = ''downloading'', downloaded_bytes = Some 29,
       total_bytes = None, total_bytes_estimate = Some 100\<rparr> = Some 100"
    by (simp add: known_total_def)
  have keeps: "\<forall>p. 0 \<le> p \<and> p \<le> 100 \<longrightarrow> c_int sample_env p = Inr p"
    by (simp add: sample_env_def wrap_c_int_in_range)
  have first: "progress_hook sample_env \<lparr>status = ''downloading'', downloaded_bytes = Some 50,
       total_bytes = Some 200, total_bytes_estimate = None\<rparr> = Inr [Progress_update 25]"
    using progress_hook_translation [of "\<lparr>status = ''downloading'', downloaded_bytes = Some 50,
       total_bytes = Some 200, total_bytes_estimate = None\<rparr>" sample_env] k1 keeps
    by (simp add: percent_of_examples)
  have second: "\<exists>p. progress_hook sample_env \<lparr>status = ''downloading'', downloaded_bytes = Some 29,
       total_bytes = None, total_bytes_estimate = Some 100\<rparr> = Inr [Progress_update p] \<and>
       0 \<le> p \<and> p \<le> 100 \<and> \<bar>p - 29\<bar> \<le> 1"
    using progress_hook_translation [of "\<lparr>status = ''downloading'', downloaded_bytes = Some 29,
       total_bytes = None, total_bytes_estimate = Some 100\<rparr>" sample_env,
       THEN conjunct2, THEN conjunct2, THEN conjunct1, rule_format, of 100] k3 keeps
    by simp
  have third: "progress_hook sample_env \<lparr>status = ''downloading'', downloaded_bytes = Some 1,
       total_bytes = Some 0, total_bytes_estimate = None\<rparr> = Inr []"
    using progress_hook_translation [of "\<lparr>status = ''downloading'', downloaded_bytes = Some 1,
       total_bytes = Some 0, total_bytes_estimate = None\<rparr>" sample_env] k2
    by simp
  have fourth: "progress_hook sample_env \<lparr>status = ''finished'', downloaded_bytes = Some 200,
       total_bytes = Some 200, total_bytes_estimate = None\<rparr> =
     Inr [Progress_update 100, Log_message ''Download finished. Processing file(s)...'' ''info'']"
    using progress_hook_translation [of "\<lparr>status = ''finished'', downloaded_bytes = Some 200,
       total_bytes = Some 200, total_bytes_estimate = None\<rparr>" sample_env] keeps
    by simp
  from first second third fourth show ?thesis by blast
qed
end
